theory Spec2Isabelle
  imports Complex_Main "HOL-Library.Char_ord" "HOL-Library.List_Lexorder"
begin

section \<open>Shared types and constants (nav\_types.py)\<close>

text \<open>
  Python floats are modelled as reals; NaN and the infinities are outside the model.
  Comparing two stored floats is exact in the code as it is here. The one float
  operation of the code is the difference \<open>max(depths) - min(depths)\<close> of the
  stationary rules, which the code rounds and the model does not: where the exact
  difference is within a rounding error of \<open>STUCK_VARIANCE_M\<close> the two can judge
  differently (the floats 0.35 and 0.3 differ by less than 0.05). Python ints are
  \<open>int\<close>, strings are \<open>string\<close>, ordered as Python orders them.
\<close>

definition CRASH_NEAR_M :: real where "CRASH_NEAR_M = 0.6"
definition CONF_MIN :: real where "CONF_MIN = 0.6"
definition MERGE_WINDOW_S :: int where "MERGE_WINDOW_S = 3"
definition STUCK_MIN_S :: int where "STUCK_MIN_S = 120"
definition STUCK_ALERT_S :: int where "STUCK_ALERT_S = 300"
definition STUCK_VARIANCE_M :: real where "STUCK_VARIANCE_M = 0.05"
definition STUCK_GAP_S :: int where "STUCK_GAP_S = 10"
definition ACCIDENT_PATTERN_WINDOW_S :: int where "ACCIDENT_PATTERN_WINDOW_S = 5"
definition ACCIDENT_NO_PROCEED_S :: int where "ACCIDENT_NO_PROCEED_S = 30"
definition ACCIDENT_DEPTH_M :: real where "ACCIDENT_DEPTH_M = 0.4"
definition ACCIDENT_CONF :: real where "ACCIDENT_CONF = 0.7"

definition OBSTACLE_EVENTS :: "string set" where
  "OBSTACLE_EVENTS = {''obstacle_center'', ''obstacle_close'', ''collision_warning''}"

definition ACCIDENT_EVENTS :: "string set" where
  "ACCIDENT_EVENTS = {''fall'', ''impact'', ''collision'', ''device_drop''}"

text \<open>Python's \<open>d in event\<close> on strings: \<open>d\<close> occurs in \<open>event\<close> as a contiguous substring.\<close>

fun starts_with :: "string \<Rightarrow> string \<Rightarrow> bool" where
  "starts_with s [] = True"
| "starts_with [] (d # ds) = False"
| "starts_with (c # cs) (d # ds) = (c = d \<and> starts_with cs ds)"

fun str_contains :: "string \<Rightarrow> string \<Rightarrow> bool" where
  "str_contains [] d = (d = [])"
| "str_contains (c # cs) d = (starts_with (c # cs) d \<or> str_contains cs d)"

definition is_directional_event :: "string \<Rightarrow> bool" where
  "is_directional_event event =
     (\<exists>d \<in> set [''veer_left'', ''veer_right'', ''proceed'']. str_contains event d)"

text \<open>\<open>set(events).intersection(S)\<close> is non-empty.\<close>

definition intersects :: "string list \<Rightarrow> string set \<Rightarrow> bool" where
  "intersects evs S = (\<exists>e \<in> set evs. e \<in> S)"

text \<open>
  A dynamically typed value, as a JSON column of the store returns it. The lists that
  occur are lists of strings (event tags, class labels), as \<open>LogRecord\<close> declares
  them; lists with other elements and JSON objects are outside the model.
\<close>

datatype pyval = PNone | PBool bool | PInt int | PFloat real | PStr string | PList "string list"

text \<open>Python's truthiness of a value.\<close>

fun py_truthy :: "pyval \<Rightarrow> bool" where
  "py_truthy PNone = False"
| "py_truthy (PBool b) = b"
| "py_truthy (PInt i) = (i \<noteq> 0)"
| "py_truthy (PFloat x) = (x \<noteq> 0)"
| "py_truthy (PStr s) = (s \<noteq> [])"
| "py_truthy (PList xs) = (xs \<noteq> [])"

text \<open>
  The elements that \<open>for x in v\<close> visits: those of a list, the characters of a
  string; \<open>None\<close> when \<open>v\<close> is not iterable and the loop raises \<open>TypeError\<close>.
\<close>

fun py_iter :: "pyval \<Rightarrow> string list option" where
  "py_iter (PList xs) = Some xs"
| "py_iter (PStr s) = Some (map (\<lambda>c. [c]) s)"
| "py_iter v = None"

text \<open>
  A log record (\<open>LogRecord\<close>). The optional keys \<open>classes\<close> and
  \<open>free_ahead_m\<close> are \<open>None\<close> when the key is absent from the dict. Nothing
  checks the value of \<open>classes\<close>, so it is kept as the JSON value it is.
\<close>

record LogRecord =
  client_id :: string
  session_id :: string
  rec_t :: int
  events :: "string list"
  classes :: "pyval option"
  free_ahead_m :: "real option"
  confidence :: real
  app :: string

section \<open>Python dicts as insertion-ordered association lists\<close>

fun dict_set :: "'k \<Rightarrow> 'v \<Rightarrow> ('k \<times> 'v) list \<Rightarrow> ('k \<times> 'v) list" where
  "dict_set k v [] = [(k, v)]"
| "dict_set k v ((k', v') # d) = (if k' = k then (k', v) # d else (k', v') # dict_set k v d)"

definition dict_get :: "('k \<times> 'v) list \<Rightarrow> 'k \<Rightarrow> 'v \<Rightarrow> 'v" where
  "dict_get d k dflt = (case map_of d k of None \<Rightarrow> dflt | Some v \<Rightarrow> v)"

section \<open>The indexer (indexer\_agent.py)\<close>

subsection \<open>Rows as the record store returns them\<close>

text \<open>\<open>isinstance(v, int)\<close>: Python's \<open>bool\<close> is a subclass of \<open>int\<close>.\<close>

fun is_int :: "pyval \<Rightarrow> bool" where
  "is_int (PInt i) = True"
| "is_int (PBool b) = True"
| "is_int v = False"

fun is_list :: "pyval \<Rightarrow> bool" where
  "is_list (PList xs) = True"
| "is_list v = False"

text \<open>\<open>isinstance(v, (int, float))\<close>.\<close>

fun is_number :: "pyval \<Rightarrow> bool" where
  "is_number (PInt i) = True"
| "is_number (PBool b) = True"
| "is_number (PFloat x) = True"
| "is_number v = False"

fun int_val :: "pyval \<Rightarrow> int" where
  "int_val (PInt i) = i"
| "int_val (PBool b) = (if b then 1 else 0)"
| "int_val v = 0"

fun num_val :: "pyval \<Rightarrow> real" where
  "num_val (PFloat x) = x"
| "num_val v = of_int (int_val v)"

fun list_val :: "pyval \<Rightarrow> string list" where
  "list_val (PList xs) = xs"
| "list_val v = []"

text \<open>
  The dict \<open>log_dict\<close> of one stored row (\<open>LogRecord.to_dict\<close> in database.py): every
  key is present; \<open>classes\<close> and \<open>free_ahead_m\<close> may hold \<open>None\<close>. The
  columns \<open>events\<close> and \<open>classes\<close> are JSON columns, and SQLite does not enforce
  the type of \<open>t\<close> and \<open>confidence\<close>.
\<close>

record log_dict =
  raw_client_id :: string
  raw_session_id :: string
  raw_t :: pyval
  raw_events :: pyval
  raw_classes :: pyval
  raw_free_ahead_m :: "real option"
  raw_confidence :: pyval
  raw_app :: string

text \<open>
  \<open>_validate_record\<close>. The five required keys are always present in the dict that
  \<open>process_logs\<close> builds, so the loop over \<open>required\<close> never returns; the type
  checks and the range check remain.
\<close>

definition validate_record :: "log_dict \<Rightarrow> bool" where
  "validate_record r =
     (if \<not> is_int (raw_t r) then False
      else if \<not> is_list (raw_events r) then False
      else if \<not> is_number (raw_confidence r) then False
      else if \<not> (0 \<le> num_val (raw_confidence r) \<and> num_val (raw_confidence r) \<le> 1) then False
      else True)"

text \<open>
  The dict \<open>record\<close> built in \<open>process_logs\<close>: \<open>classes\<close> is copied only when
  truthy, \<open>free_ahead_m\<close> only when it is not \<open>None\<close>.
\<close>

definition to_record :: "log_dict \<Rightarrow> LogRecord" where
  "to_record d =
     \<lparr> client_id = raw_client_id d, session_id = raw_session_id d,
       rec_t = int_val (raw_t d), events = list_val (raw_events d),
       classes = (if py_truthy (raw_classes d) then Some (raw_classes d) else None),
       free_ahead_m = raw_free_ahead_m d,
       confidence = num_val (raw_confidence d), app = raw_app d \<rparr>"

subsection \<open>Hazard results\<close>

record moment =
  m_t :: int
  m_free_ahead_m :: "real option"
  m_classes :: pyval
  m_confidence :: real
  m_events :: "string list"

record interval =
  start_t :: int
  end_t :: int
  duration_s :: int

record hazards_t =
  almost_crash_moments :: "moment list"
  stuck_intervals :: "interval list"

record UserIndex =
  ix_client_id :: string
  by_time :: "(int \<times> LogRecord) list"
  by_event :: "(string \<times> int list) list"
  counters :: "(string \<times> int) list"
  by_class :: "(string \<times> int) list"
  hazards :: hazards_t
  dropped_records :: int

subsection \<open>Aggregation\<close>

text \<open>The loop over \<open>record["events"]\<close> in \<open>_add_to_index\<close>.\<close>

fun add_events :: "int \<Rightarrow> string list \<Rightarrow> UserIndex \<Rightarrow> UserIndex" where
  "add_events t [] idx = idx"
| "add_events t (e # es) idx =
     add_events t es
       (idx\<lparr> by_event := dict_set e (dict_get (by_event idx) e [] @ [t]) (by_event idx),
             counters := dict_set e (dict_get (counters idx) e 0 + 1) (counters idx) \<rparr>)"

fun add_classes :: "string list \<Rightarrow> UserIndex \<Rightarrow> UserIndex" where
  "add_classes [] idx = idx"
| "add_classes (c # cs) idx =
     add_classes cs (idx\<lparr> by_class := dict_set c (dict_get (by_class idx) c 0 + 1) (by_class idx) \<rparr>)"

text \<open>
  \<open>_add_to_index\<close> updates the index in place. \<open>add_to_index\<close> is the index that
  the call leaves behind, whether it returns or raises: the writes to \<open>by_time\<close>,
  \<open>by_event\<close> and \<open>counters\<close> come first, and the loop over \<open>classes\<close> raises
  \<open>TypeError\<close> before its first step when the value is truthy and not iterable.
  \<open>add_to_index_raises\<close> tells whether the call raises.
\<close>

definition add_to_index :: "UserIndex \<Rightarrow> LogRecord \<Rightarrow> UserIndex" where
  "add_to_index idx record =
     (let t = rec_t record;
          idx1 = idx\<lparr> by_time := dict_set t record (by_time idx) \<rparr>;
          idx2 = add_events t (events record) idx1
      in case classes record of
           None \<Rightarrow> idx2
         | Some v \<Rightarrow>
             if \<not> py_truthy v then idx2
             else (case py_iter v of
                     None \<Rightarrow> idx2
                   | Some cs \<Rightarrow> add_classes cs idx2))"

definition add_to_index_raises :: "LogRecord \<Rightarrow> bool" where
  "add_to_index_raises record =
     (case classes record of
        None \<Rightarrow> False
      | Some v \<Rightarrow> py_truthy v \<and> py_iter v = None)"

subsection \<open>Almost-crash moments\<close>

text \<open>
  The matched obstacle tags, \<open>list(events.intersection(OBSTACLE_EVENTS))\<close>; the order
  of a Python set is unspecified, the model keeps first occurrences in list order.
\<close>

definition candidate_of :: "real \<Rightarrow> real \<Rightarrow> int \<times> LogRecord \<Rightarrow> moment option" where
  "candidate_of crash_near_m conf_min item =
     (let t = fst item; record = snd item in
      if \<not> intersects (events record) OBSTACLE_EVENTS then None
      else if confidence record < conf_min then None
      else if (case free_ahead_m record of None \<Rightarrow> False | Some depth \<Rightarrow> depth > crash_near_m)
        then None
      else Some \<lparr> m_t = t, m_free_ahead_m = free_ahead_m record,
                  m_classes = (case classes record of None \<Rightarrow> PList [] | Some v \<Rightarrow> v),
                  m_confidence = confidence record,
                  m_events = filter (\<lambda>e. e \<in> OBSTACLE_EVENTS) (remdups (events record)) \<rparr>)"

text \<open>
  The key of \<open>min(current_group, key=lambda x: x["free_ahead_m"] or 999)\<close>: \<open>or\<close>
  replaces every falsy value, that is \<open>None\<close> and also \<open>0.0\<close>, by 999.
\<close>

definition depth_key :: "moment \<Rightarrow> real" where
  "depth_key x = (case m_free_ahead_m x of None \<Rightarrow> 999
                  | Some d \<Rightarrow> if d = 0 then 999 else d)"

text \<open>Python's \<open>min\<close> with a key returns the first of the minimal elements.\<close>

fun min_from :: "moment \<Rightarrow> moment list \<Rightarrow> moment" where
  "min_from best [] = best"
| "min_from best (x # xs) = min_from (if depth_key x < depth_key best then x else best) xs"

text \<open>
  The merge loop. \<open>current_group\<close> is never empty; it is carried as its first element
  \<open>g\<close> and the rest \<open>gs\<close>.
\<close>

fun merge_loop :: "moment list \<Rightarrow> moment \<Rightarrow> moment list \<Rightarrow> moment list \<Rightarrow> moment list" where
  "merge_loop [] g gs merged = merged @ [min_from g gs]"
| "merge_loop (c # cs) g gs merged =
     (if m_t c - m_t (last (g # gs)) \<le> MERGE_WINDOW_S
      then merge_loop cs g (gs @ [c]) merged
      else merge_loop cs c [] (merged @ [min_from g gs]))"

text \<open>Lines 209 to 231: sort the candidates by \<open>t\<close> (a stable sort) and merge.\<close>

definition merge_candidates :: "moment list \<Rightarrow> moment list" where
  "merge_candidates candidates =
     (case sort_key m_t candidates of
        [] \<Rightarrow> []
      | c # cs \<Rightarrow> merge_loop cs c [] [])"

definition find_almost_crashes :: "UserIndex \<Rightarrow> real \<Rightarrow> real \<Rightarrow> moment list" where
  "find_almost_crashes index crash_near_m conf_min =
     merge_candidates (List.map_filter (candidate_of crash_near_m conf_min) (by_time index))"

subsection \<open>Stuck intervals\<close>

fun max_list :: "real \<Rightarrow> real list \<Rightarrow> real" where
  "max_list m [] = m"
| "max_list m (x # xs) = max_list (max m x) xs"

fun min_list :: "real \<Rightarrow> real list \<Rightarrow> real" where
  "min_list m [] = m"
| "min_list m (x # xs) = min_list (min m x) xs"

text \<open>
  Lines 256 to 273: one record's update of the rolling depth window and its judgement
  \<open>is_stationary\<close>.
\<close>

definition ix_push_depth :: "real list \<Rightarrow> LogRecord \<Rightarrow> real list" where
  "ix_push_depth depths record =
     (case free_ahead_m record of
        None \<Rightarrow> depths
      | Some depth \<Rightarrow>
          (let ds = depths @ [depth] in if length ds > 10 then tl ds else ds))"

definition ix_is_stationary :: "real list \<Rightarrow> LogRecord \<Rightarrow> bool" where
  "ix_is_stationary depths record =
     (let is_stopped = (''stop'' \<in> set (events record));
          has_movement = (\<exists>e \<in> set (events record). is_directional_event e);
          depth_stationary =
            (if length depths \<ge> 3
             then max_list (hd depths) (tl depths) - min_list (hd depths) (tl depths)
                    < STUCK_VARIANCE_M
             else False)
      in (is_stopped \<or> depth_stationary) \<and> \<not> has_movement)"

text \<open>
  The state of the walk: the emitted intervals, the pending interval
  (\<open>current_start\<close>, \<open>current_end\<close>: set and reset together), the depth window, and
  the judgement made for each record so far.
\<close>

record walk =
  w_intervals :: "interval list"
  w_current :: "(int \<times> int) option"
  w_depths :: "real list"
  w_judged :: "bool list"

definition emit :: "int \<Rightarrow> int \<times> int \<Rightarrow> interval list \<Rightarrow> interval list" where
  "emit stuck_min_s cur ivs =
     (let duration = snd cur - fst cur in
      if duration \<ge> stuck_min_s
      then ivs @ [\<lparr> start_t = fst cur, end_t = snd cur, duration_s = duration \<rparr>]
      else ivs)"

definition walk_step :: "int \<Rightarrow> walk \<Rightarrow> int \<times> LogRecord \<Rightarrow> walk" where
  "walk_step stuck_min_s w item =
     (let t = fst item; record = snd item;
          depths = ix_push_depth (w_depths w) record;
          is_stationary = ix_is_stationary depths record;
          judged = w_judged w @ [is_stationary]
      in if is_stationary
         then w\<lparr> w_current := (case w_current w of None \<Rightarrow> Some (t, t)
                                 | Some cur \<Rightarrow> Some (fst cur, t)),
                 w_depths := depths, w_judged := judged \<rparr>
         else (case w_current w of
                 None \<Rightarrow> w\<lparr> w_depths := depths, w_judged := judged \<rparr>
               | Some cur \<Rightarrow>
                   \<lparr> w_intervals = emit stuck_min_s cur (w_intervals w),
                     w_current = None, w_depths = [], w_judged = judged \<rparr>))"

definition walk_init :: walk where
  "walk_init = \<lparr> w_intervals = [], w_current = None, w_depths = [], w_judged = [] \<rparr>"

definition stuck_walk :: "int \<Rightarrow> (int \<times> LogRecord) list \<Rightarrow> walk" where
  "stuck_walk stuck_min_s records = foldl (walk_step stuck_min_s) walk_init records"

text \<open>The flush of the pending interval after the loop.\<close>

definition raw_intervals :: "int \<Rightarrow> (int \<times> LogRecord) list \<Rightarrow> interval list" where
  "raw_intervals stuck_min_s records =
     (let w = stuck_walk stuck_min_s records in
      case w_current w of
        None \<Rightarrow> w_intervals w
      | Some cur \<Rightarrow> emit stuck_min_s cur (w_intervals w))"

text \<open>
  The merge of intervals with a gap of at most \<open>STUCK_GAP_S\<close>. The list \<open>merged\<close> of
  the source is \<open>done @ [lst]\<close>: \<open>lst\<close> is \<open>merged[-1]\<close>, the only element the loop
  rewrites.
\<close>

fun merge_gaps :: "interval list \<Rightarrow> interval \<Rightarrow> interval list \<Rightarrow> interval list" where
  "merge_gaps done lst [] = done @ [lst]"
| "merge_gaps done lst (iv # ivs) =
     (if start_t iv - end_t lst \<le> STUCK_GAP_S
      then merge_gaps done
             \<lparr> start_t = start_t lst, end_t = end_t iv, duration_s = end_t iv - start_t lst \<rparr> ivs
      else merge_gaps (done @ [lst]) iv ivs)"

definition find_stuck_intervals :: "UserIndex \<Rightarrow> int \<Rightarrow> interval list" where
  "find_stuck_intervals index stuck_min_s =
     (let records = sort_key fst (by_time index) in
      case raw_intervals stuck_min_s records of
        [] \<Rightarrow> []
      | iv # ivs \<Rightarrow> merge_gaps [] iv ivs)"

text \<open>\<open>_compute_hazards\<close> calls both with their default parameters.\<close>

definition compute_hazards :: "UserIndex \<Rightarrow> hazards_t" where
  "compute_hazards index =
     \<lparr> almost_crash_moments = find_almost_crashes index CRASH_NEAR_M CONF_MIN,
       stuck_intervals = find_stuck_intervals index 120 \<rparr>"

subsection \<open>The build loop of process\_logs\<close>

definition empty_index :: "string \<Rightarrow> UserIndex" where
  "empty_index cid =
     \<lparr> ix_client_id = cid, by_time = [], by_event = [], counters = [], by_class = [],
       hazards = \<lparr> almost_crash_moments = [], stuck_intervals = [] \<rparr>, dropped_records = 0 \<rparr>"

text \<open>
  One iteration of the loop over \<open>log_records\<close>. Building \<open>record\<close> and validating
  it raise nothing. When \<open>_add_to_index\<close> raises, the \<open>except\<close> branch counts the
  record in \<open>dropped_records\<close>; what \<open>_add_to_index\<close> wrote before it raised stays
  in the index.
\<close>

definition process_one :: "UserIndex \<Rightarrow> log_dict \<Rightarrow> UserIndex" where
  "process_one index d =
     (if \<not> validate_record d
      then index\<lparr> dropped_records := dropped_records index + 1 \<rparr>
      else (let index' = add_to_index index (to_record d) in
            if add_to_index_raises (to_record d)
            then index'\<lparr> dropped_records := dropped_records index' + 1 \<rparr>
            else index'))"

definition build_index :: "string \<Rightarrow> log_dict list \<Rightarrow> UserIndex" where
  "build_index cid log_records =
     (let index = foldl process_one (empty_index cid) log_records
      in index\<lparr> hazards := compute_hazards index \<rparr>)"

subsection \<open>Concrete record rows\<close>

definition bad_conf :: log_dict where
  "bad_conf = \<lparr> raw_client_id = ''alice'', raw_session_id = ''s1'', raw_t = PInt 100,
     raw_events = PList [''stop''], raw_classes = PNone, raw_free_ahead_m = Some 1.0,
     raw_confidence = PFloat 1.5, raw_app = ''android'' \<rparr>"

definition good_rec :: log_dict where
  "good_rec = \<lparr> raw_client_id = ''alice'', raw_session_id = ''s1'', raw_t = PInt 90,
     raw_events = PList [''stop''], raw_classes = PNone, raw_free_ahead_m = Some 1.0,
     raw_confidence = PFloat 0.8, raw_app = ''android'' \<rparr>"

definition no_events :: log_dict where
  "no_events = \<lparr> raw_client_id = ''alice'', raw_session_id = ''s1'', raw_t = PInt 100,
     raw_events = PList [], raw_classes = PNone, raw_free_ahead_m = None,
     raw_confidence = PFloat 0.8, raw_app = ''android'' \<rparr>"

text \<open>A row with no events whose \<open>classes\<close> column holds the number 5.\<close>

definition no_events_classes_5 :: log_dict where
  "no_events_classes_5 = \<lparr> raw_client_id = ''alice'', raw_session_id = ''s1'', raw_t = PInt 100,
     raw_events = PList [], raw_classes = PInt 5, raw_free_ahead_m = None,
     raw_confidence = PFloat 0.8, raw_app = ''android'' \<rparr>"

definition events_not_list :: log_dict where
  "events_not_list = \<lparr> raw_client_id = ''alice'', raw_session_id = ''s1'', raw_t = PInt 100,
     raw_events = PStr ''stop'', raw_classes = PNone, raw_free_ahead_m = None,
     raw_confidence = PFloat 0.8, raw_app = ''android'' \<rparr>"

definition obstacle_row :: "int \<Rightarrow> real option \<Rightarrow> log_dict" where
  "obstacle_row t depth = \<lparr> raw_client_id = ''alice'', raw_session_id = ''s1'', raw_t = PInt t,
     raw_events = PList [''obstacle_center''], raw_classes = PNone, raw_free_ahead_m = depth,
     raw_confidence = PFloat 0.8, raw_app = ''android'' \<rparr>"

definition obstacle_moment :: "int \<Rightarrow> real option \<Rightarrow> moment" where
  "obstacle_moment t depth = \<lparr> m_t = t, m_free_ahead_m = depth, m_classes = PList [],
     m_confidence = 0.8, m_events = [''obstacle_center''] \<rparr>"

text \<open>Invariants used for the stuck-interval walk.\<close>

definition interval_ok :: "int \<Rightarrow> interval \<Rightarrow> bool" where
  "interval_ok m iv =
     (start_t iv \<le> end_t iv \<and> duration_s iv = end_t iv - start_t iv \<and> m \<le> duration_s iv)"

definition walk_inv :: "int \<Rightarrow> int \<Rightarrow> walk \<Rightarrow> bool" where
  "walk_inv m hi w =
     ((\<forall>iv \<in> set (w_intervals w). interval_ok m iv)
      \<and> sorted_wrt (\<lambda>a b. end_t a \<le> start_t b) (w_intervals w)
      \<and> (case w_current w of
            None \<Rightarrow> \<forall>iv \<in> set (w_intervals w). end_t iv \<le> hi
          | Some cur \<Rightarrow> fst cur \<le> snd cur \<and> snd cur \<le> hi
                         \<and> (\<forall>iv \<in> set (w_intervals w). end_t iv \<le> fst cur)))"

definition event_record :: "int \<Rightarrow> string list \<Rightarrow> LogRecord" where
  "event_record t evs = \<lparr> client_id = ''alice'', session_id = ''s1'', rec_t = t, events = evs,
     classes = None, free_ahead_m = None, confidence = 0.9, app = ''android'' \<rparr>"

definition stuck_index :: UserIndex where
  "stuck_index = (empty_index ''alice'')
     \<lparr> by_time := [(0, event_record 0 [''stop'']), (130, event_record 130 [''stop'']),
                    (135, event_record 135 [''proceed'']),
                    (140, event_record 140 [''stop'']), (300, event_record 300 [''stop'']),
                    (500, event_record 500 [''proceed'']),
                    (520, event_record 520 [''stop'']), (700, event_record 700 [''stop''])] \<rparr>"

section \<open>The watchdog (watchdog\_agent.py)\<close>

datatype alert_type = Stuck_alert | Accident_alert

text \<open>The rationale texts are f-strings; the model keeps their arguments.\<close>

datatype rationale_t =
    Direct_accident "string list"
  | Obstacle_stop real int
  | Veer_surge nat int

record Alert =
  alert_type :: alert_type
  alert_client_id :: string
  alert_t :: int
  rationale :: "rationale_t option"
  since :: "int option"

text \<open>
  One alert that passed its debounce check and was handed to the notification loop,
  with the wall-clock reading \<open>now\<close> that the check used and that is stored as the
  client's last alert time.
\<close>

record emitted =
  em_alert :: Alert
  em_now :: int

text \<open>
  The agent's state. \<open>client_windows\<close> is a \<open>defaultdict\<close> of
  \<open>deque(maxlen=100)\<close>: a client without an entry has the empty window. The two
  debounce periods are set in \<open>__init__\<close> and never assigned again.
\<close>

record WatchdogAgent =
  client_windows :: "string \<Rightarrow> LogRecord list"
  stuck_alerts :: "string \<rightharpoonup> int"
  accident_alerts :: "string \<rightharpoonup> int"

definition stuck_debounce :: int where "stuck_debounce = 900"

definition accident_debounce :: int where "accident_debounce = 7200"

text \<open>\<open>d.get(k, default)\<close> on a dict modelled as a map.\<close>

definition map_get :: "('k \<rightharpoonup> 'v) \<Rightarrow> 'k \<Rightarrow> 'v \<Rightarrow> 'v" where
  "map_get m k dflt = (case m k of None \<Rightarrow> dflt | Some v \<Rightarrow> v)"

definition watchdog_init :: WatchdogAgent where
  "watchdog_init = \<lparr> client_windows = (\<lambda>c. []), stuck_alerts = Map.empty,
                      accident_alerts = Map.empty \<rparr>"

text \<open>\<open>deque(maxlen=100).append\<close>: a full deque drops its oldest element.\<close>

definition deque_append :: "LogRecord list \<Rightarrow> LogRecord \<Rightarrow> LogRecord list" where
  "deque_append window record =
     (let w = window @ [record] in if length w > 100 then tl w else w)"

subsection \<open>Stuck detection\<close>

text \<open>Lines 84 to 103 of \<open>_check_stuck\<close>: the depth window and the judgement of one record.\<close>

definition wd_push_depth :: "real list \<Rightarrow> LogRecord \<Rightarrow> real list" where
  "wd_push_depth depths record =
     (case free_ahead_m record of
        None \<Rightarrow> depths
      | Some depth \<Rightarrow>
          (let ds = depths @ [depth] in if length ds > 10 then tl ds else ds))"

definition wd_is_stationary :: "real list \<Rightarrow> LogRecord \<Rightarrow> bool" where
  "wd_is_stationary depths record =
     (let is_stopped = (''stop'' \<in> set (events record));
          has_movement = (\<exists>e \<in> set (events record). is_directional_event e);
          depth_stationary =
            (if length depths \<ge> 3
             then max_list (hd depths) (tl depths) - min_list (hd depths) (tl depths)
                    < STUCK_VARIANCE_M
             else False)
      in (is_stopped \<or> depth_stationary) \<and> \<not> has_movement)"

text \<open>
  The loop over \<open>reversed(window)\<close>, which stops at the first record that is not
  stationary. It returns \<open>stationary_start\<close> and the judgement made for each record it
  visited, newest first.
\<close>

fun wd_scan :: "LogRecord list \<Rightarrow> real list \<Rightarrow> int option \<Rightarrow> bool list
                  \<Rightarrow> int option \<times> bool list" where
  "wd_scan [] depths stationary_start judged = (stationary_start, judged)"
| "wd_scan (record # rest) depths stationary_start judged =
     (let depths' = wd_push_depth depths record;
          is_stationary = wd_is_stationary depths' record
      in if is_stationary
         then wd_scan rest depths' (Some (rec_t record)) (judged @ [is_stationary])
         else (stationary_start, judged @ [is_stationary]))"

text \<open>
  \<open>_check_stuck\<close> with \<open>_send_stuck_alert\<close>. \<open>now\<close> is the reading of
  \<open>int(time.time())\<close> in \<open>_check_stuck\<close>, \<open>now_send\<close> the later one in
  \<open>_send_stuck_alert\<close> that becomes the alert's \<open>t\<close>.
\<close>

definition check_stuck :: "WatchdogAgent \<Rightarrow> string \<Rightarrow> int \<Rightarrow> int
                              \<Rightarrow> WatchdogAgent \<times> emitted list" where
  "check_stuck ag cid now now_send =
     (let window = client_windows ag cid in
      if length window < 2 then (ag, [])
      else case fst (wd_scan (rev window) [] None []) of
             None \<Rightarrow> (ag, [])
           | Some stationary_start \<Rightarrow>
               (let duration = now - stationary_start in
                if duration \<ge> STUCK_ALERT_S
                then (let last_alert = map_get (stuck_alerts ag) cid 0 in
                      if now - last_alert \<ge> stuck_debounce
                      then (ag\<lparr> stuck_alerts := (stuck_alerts ag)(cid \<mapsto> now) \<rparr>,
                            [\<lparr> em_alert = \<lparr> alert_type = Stuck_alert, alert_client_id = cid,
                                            alert_t = now_send, rationale = None,
                                            since = Some stationary_start \<rparr>,
                               em_now = now \<rparr>])
                      else (ag, []))
                else (ag, [])))"

subsection \<open>Accident detection\<close>

definition send_accident_alert :: "WatchdogAgent \<Rightarrow> string \<Rightarrow> int \<Rightarrow> rationale_t \<Rightarrow> int
                                     \<Rightarrow> WatchdogAgent \<times> emitted list" where
  "send_accident_alert ag cid t why now =
     (let last_alert = map_get (accident_alerts ag) cid 0 in
      if now - last_alert < accident_debounce then (ag, [])
      else (ag\<lparr> accident_alerts := (accident_alerts ag)(cid \<mapsto> now) \<rparr>,
            [\<lparr> em_alert = \<lparr> alert_type = Accident_alert, alert_client_id = cid, alert_t = t,
                            rationale = Some why, since = None \<rparr>,
               em_now = now \<rparr>]))"

text \<open>
  The inner loop of pattern 2 over \<open>window[i + 1:]\<close>; it returns \<open>stop_found\<close> and
  \<open>no_proceed_duration\<close>.
\<close>

fun follow :: "int \<Rightarrow> LogRecord list \<Rightarrow> bool \<Rightarrow> int \<Rightarrow> bool \<times> int" where
  "follow obstacle_time [] stop_found no_proceed = (stop_found, no_proceed)"
| "follow obstacle_time (future_rec # rest) stop_found no_proceed =
     (let future_t = rec_t future_rec in
      if future_t - obstacle_time > ACCIDENT_PATTERN_WINDOW_S + ACCIDENT_NO_PROCEED_S
      then (stop_found, no_proceed)
      else (let stop_found' = (stop_found \<or> ''stop'' \<in> set (events future_rec)) in
            if stop_found'
            then (if \<exists>e \<in> set (events future_rec). is_directional_event e
                  then (stop_found', no_proceed)
                  else follow obstacle_time rest stop_found' (future_t - obstacle_time))
            else follow obstacle_time rest stop_found' no_proceed))"

text \<open>
  The indices that \<open>range(len(window) - 1, max(0, len(window) - 10), -1)\<close> yields: from
  \<open>n - 1\<close> down to \<open>max(0, n - 10) + 1\<close>, the stop value being exclusive. On naturals
  \<open>n - 10\<close> is \<open>max(0, n - 10)\<close>.
\<close>

definition anchor_indices :: "nat \<Rightarrow> nat list" where
  "anchor_indices n = rev [Suc (n - 10) ..< n]"

text \<open>
  The outer loop of pattern 2 over the anchor candidates; on the first anchor that is
  followed by a stop and no movement it returns the arguments of the alert.
\<close>

fun pattern2 :: "LogRecord list \<Rightarrow> nat list \<Rightarrow> (int \<times> real \<times> int) option" where
  "pattern2 window [] = None"
| "pattern2 window (i # is) =
     (let rec = window ! i in
      if \<not> intersects (events rec) OBSTACLE_EVENTS then pattern2 window is
      else if confidence rec < ACCIDENT_CONF then pattern2 window is
      else case free_ahead_m rec of
             None \<Rightarrow> pattern2 window is
           | Some depth \<Rightarrow>
               if depth > ACCIDENT_DEPTH_M then pattern2 window is
               else (let r = follow (rec_t rec) (drop (Suc i) window) False 0 in
                     if fst r \<and> snd r \<ge> ACCIDENT_NO_PROCEED_S
                     then Some (rec_t rec, depth, snd r)
                     else pattern2 window is))"

text \<open>Pattern 3: the veer count over \<open>window[-5:]\<close>, counted per event.\<close>

definition veer_count :: "LogRecord list \<Rightarrow> nat" where
  "veer_count window =
     sum_list (map (\<lambda>rec. length (filter (\<lambda>e. str_contains e ''veer'') (events rec)))
                   (drop (length window - 5) window))"

text \<open>The loop over \<open>reversed(window[-10:])\<close> computing \<open>time_since_last_move\<close>.\<close>

fun since_last_move :: "int \<Rightarrow> LogRecord list \<Rightarrow> int \<Rightarrow> int" where
  "since_last_move current_t [] acc = acc"
| "since_last_move current_t (rec # rest) acc =
     (if \<exists>e \<in> set (events rec). is_directional_event e then acc
      else since_last_move current_t rest (current_t - rec_t rec))"

text \<open>
  \<open>_check_accident\<close>. \<open>now\<close> is the reading of the clock inside
  \<open>_send_accident_alert\<close>; every path calls it at most once.
\<close>

definition check_accident :: "WatchdogAgent \<Rightarrow> string \<Rightarrow> LogRecord \<Rightarrow> int
                                 \<Rightarrow> WatchdogAgent \<times> emitted list" where
  "check_accident ag cid current_record now =
     (if intersects (events current_record) ACCIDENT_EVENTS
      then send_accident_alert ag cid (rec_t current_record)
             (Direct_accident (filter (\<lambda>e. e \<in> ACCIDENT_EVENTS) (remdups (events current_record))))
             now
      else (let window = client_windows ag cid in
        if length window < 3 then (ag, [])
        else case pattern2 window (anchor_indices (length window)) of
               Some (obstacle_time, depth, no_proceed) \<Rightarrow>
                 send_accident_alert ag cid obstacle_time (Obstacle_stop depth no_proceed) now
             | None \<Rightarrow>
                 (let vc = veer_count window in
                  if vc \<ge> 3 \<and> ''stop'' \<in> set (events current_record)
                  then (let time_since_last_move =
                              since_last_move (rec_t current_record)
                                (rev (drop (length window - 10) window)) 0
                        in if time_since_last_move \<ge> 120
                           then send_accident_alert ag cid (rec_t current_record)
                                  (Veer_surge vc time_since_last_move) now
                           else (ag, []))
                  else (ag, []))))"

subsection \<open>Processing a record, clearing a client\<close>

text \<open>The wall-clock readings that processing one record may take.\<close>

record clock =
  now_stuck :: int
  now_stuck_send :: int
  now_accident :: int

definition process_record :: "WatchdogAgent \<Rightarrow> LogRecord \<Rightarrow> clock
                                 \<Rightarrow> WatchdogAgent \<times> emitted list" where
  "process_record ag record clk =
     (let cid = client_id record;
          ag1 = ag\<lparr> client_windows := (client_windows ag)(cid := deque_append (client_windows ag cid) record) \<rparr>;
          r1 = check_stuck ag1 cid (now_stuck clk) (now_stuck_send clk);
          r2 = check_accident (fst r1) cid record (now_accident clk)
      in (fst r2, snd r1 @ snd r2))"

definition clear_client_state :: "WatchdogAgent \<Rightarrow> string \<Rightarrow> WatchdogAgent" where
  "clear_client_state ag cid =
     ag\<lparr> client_windows := (client_windows ag)(cid := []),
         stuck_alerts := (stuck_alerts ag)(cid := None),
         accident_alerts := (accident_alerts ag)(cid := None) \<rparr>"

text \<open>An execution of the watchdog: the calls made on the agent, in order.\<close>

datatype call = Process LogRecord clock | Clear string

fun run :: "call list \<Rightarrow> WatchdogAgent \<Rightarrow> WatchdogAgent \<times> emitted list" where
  "run [] ag = (ag, [])"
| "run (Process record clk # calls) ag =
     (let r1 = process_record ag record clk; r2 = run calls (fst r1)
      in (fst r2, snd r1 @ snd r2))"
| "run (Clear cid # calls) ag = run calls (clear_client_state ag cid)"

text \<open>The alerts of one kind emitted for one client, in the order of emission.\<close>

definition alerts_of :: "alert_type \<Rightarrow> string \<Rightarrow> emitted list \<Rightarrow> emitted list" where
  "alerts_of k cid es =
     filter (\<lambda>e. alert_type (em_alert e) = k \<and> alert_client_id (em_alert e) = cid) es"

subsection \<open>Concrete executions\<close>

definition clock_at :: "int \<Rightarrow> clock" where
  "clock_at now = \<lparr> now_stuck = now, now_stuck_send = now, now_accident = now \<rparr>"

definition stuck_then_clear :: "call list" where
  "stuck_then_clear =
     [Process (event_record 0 [''stop'']) (clock_at 1000), Process (event_record 10 [''stop'']) (clock_at 1000),
      Clear ''alice'',
      Process (event_record 20 [''stop'']) (clock_at 1001), Process (event_record 30 [''stop'']) (clock_at 1001)]"

definition fall_then_clear :: "call list" where
  "fall_then_clear =
     [Process (event_record 0 [''fall'']) (clock_at 8000), Clear ''alice'',
      Process (event_record 1 [''fall'']) (clock_at 8001)]"

text \<open>The last alert time and the debounce period of each kind of alert.\<close>

definition last_time :: "alert_type \<Rightarrow> WatchdogAgent \<Rightarrow> string \<Rightarrow> int" where
  "last_time k ag cid =
     (case k of Stuck_alert \<Rightarrow> map_get (stuck_alerts ag) cid 0
              | Accident_alert \<Rightarrow> map_get (accident_alerts ag) cid 0)"

definition debounce :: "alert_type \<Rightarrow> int" where
  "debounce k = (case k of Stuck_alert \<Rightarrow> stuck_debounce | Accident_alert \<Rightarrow> accident_debounce)"

definition stuck_debounced :: "call list" where
  "stuck_debounced =
     [Process (event_record 0 [''stop'']) (clock_at 1000), Process (event_record 10 [''stop'']) (clock_at 1000),
      Process (event_record 20 [''stop'']) (clock_at 1300),
      Process (event_record 30 [''stop'']) (clock_at 2000)]"

text \<open>
  The records that the indexer's walk visits when the index is built from the records of
  a watchdog window: \<open>sorted(index["by_time"].items())\<close>.
\<close>

definition walk_records :: "LogRecord list \<Rightarrow> (int \<times> LogRecord) list" where
  "walk_records window = sort_key fst (by_time (foldl add_to_index (empty_index []) window))"

definition depth_record :: "int \<Rightarrow> real \<Rightarrow> LogRecord" where
  "depth_record t depth = \<lparr> client_id = ''alice'', session_id = ''s1'', rec_t = t, events = [],
     classes = None, free_ahead_m = Some depth, confidence = 0.9, app = ''android'' \<rparr>"

definition depth_window :: "LogRecord list" where
  "depth_window = [depth_record 0 1.0, depth_record 10 1.0, depth_record 20 1.0]"

definition stop_window :: "LogRecord list" where
  "stop_window = [event_record 0 [''stop''], event_record 10 [''proceed''],
                  event_record 20 [''stop''], event_record 30 [''stop'']]"

definition obstacle_record :: "int \<Rightarrow> LogRecord" where
  "obstacle_record t = \<lparr> client_id = ''alice'', session_id = ''s1'', rec_t = t,
     events = [''obstacle_center''], classes = None, free_ahead_m = Some 0.3,
     confidence = 0.8, app = ''android'' \<rparr>"

text \<open>Scenario S3 of the specification, delivered to a fresh watchdog.\<close>

definition s3_calls :: "call list" where
  "s3_calls =
     [Process (obstacle_record 10000) (clock_at 10000),
      Process (event_record 10003 [''stop'']) (clock_at 10003),
      Process (event_record 10035 [''stop'']) (clock_at 10035)]"

section \<open>The store (database.py) and the tool functions (tools.py)\<close>

record EmergencyContact =
  ec_client_id :: string
  ec_contact_id :: string
  authorized :: int

text \<open>The decimal numeral of an int, as \<open>str\<close> and \<open>json.dumps\<close> write it.\<close>

fun dec_nat :: "nat \<Rightarrow> string" where
  "dec_nat n = (if n < 10 then [char_of (48 + n)]
                else dec_nat (n div 10) @ [char_of (48 + n mod 10)])"

definition str_int :: "int \<Rightarrow> string" where
  "str_int i = (if i < 0 then CHR ''-'' # dec_nat (nat (- i)) else dec_nat (nat i))"

text \<open>
  The column \<open>index_data\<close> is a JSON column: the index is written with
  \<open>json.dumps\<close> and read back with \<open>json.loads\<close>. The keys of a JSON object are
  strings, so the int keys of \<open>by_time\<close> come back as their decimal numerals; the
  other keys are strings already, and the values (ints, floats, strings, lists, \<open>None\<close>)
  come back as they were. \<open>StoredIndex\<close> is the dict that \<open>json.loads\<close> returns
  and \<open>json_roundtrip\<close> the effect of writing an index and reading it back.
\<close>

record StoredIndex =
  st_client_id :: string
  st_by_time :: "(string \<times> LogRecord) list"
  st_by_event :: "(string \<times> int list) list"
  st_counters :: "(string \<times> int) list"
  st_by_class :: "(string \<times> int) list"
  st_hazards :: hazards_t
  st_dropped_records :: int

definition json_roundtrip :: "UserIndex \<Rightarrow> StoredIndex" where
  "json_roundtrip index =
     \<lparr> st_client_id = ix_client_id index,
       st_by_time = map (\<lambda>item. (str_int (fst item), snd item)) (by_time index),
       st_by_event = by_event index, st_counters = counters index,
       st_by_class = by_class index, st_hazards = hazards index,
       st_dropped_records = dropped_records index \<rparr>"

text \<open>A row of \<open>user_indices\<close>, with \<open>index_data\<close> as a read of the column returns it.\<close>

record index_row =
  ir_client_id :: string
  ir_session_id :: "string option"
  ir_time_start :: "int option"
  ir_time_end :: "int option"
  index_data :: StoredIndex

record database =
  log_records :: "log_dict list"
  user_indices :: "index_row list"
  emergency_contacts :: "EmergencyContact list"

text \<open>The accesses to the store, recorded in the order in which they are made.\<close>

datatype access = Contact_read | Log_read | Index_read | Index_write

record world =
  db :: database
  trace :: "access list"

text \<open>Python's truthiness of an optional string: \<open>None\<close> and \<open>""\<close> are falsy.\<close>

fun truthy :: "string option \<Rightarrow> bool" where
  "truthy None = False"
| "truthy (Some s) = (s \<noteq> [])"

text \<open>\<open>DatabaseService.is_authorized\<close>: some row matches the three filters.\<close>

definition db_is_authorized :: "database \<Rightarrow> string \<Rightarrow> string \<Rightarrow> bool" where
  "db_is_authorized d requester_id cid =
     (filter (\<lambda>c. ec_client_id c = cid \<and> ec_contact_id c = requester_id \<and> authorized c = 1)
             (emergency_contacts d) \<noteq> [])"

definition is_authorized :: "world \<Rightarrow> string \<Rightarrow> string \<Rightarrow> bool \<times> world" where
  "is_authorized w requester_id cid =
     (db_is_authorized (db w) requester_id cid, w\<lparr> trace := trace w @ [Contact_read] \<rparr>)"

text \<open>
  The comparisons \<open>t >= time_start\<close> and \<open>t < time_end\<close> of the store on the
  stored value of \<open>t\<close>. SQLite keeps in the column what was inserted: a number (an
  int, or a float such as 150.5) is compared by its value; a text is greater than every
  number. \<open>None\<close> and lists cannot be stored in the column.
\<close>

definition t_ge :: "pyval \<Rightarrow> int \<Rightarrow> bool" where
  "t_ge v s = (if is_number v then num_val v \<ge> of_int s else True)"

definition t_lt :: "pyval \<Rightarrow> int \<Rightarrow> bool" where
  "t_lt v e = (if is_number v then num_val v < of_int e else False)"

fun text_val :: "pyval \<Rightarrow> string" where
  "text_val (PStr s) = s"
| "text_val v = []"

text \<open>
  \<open>DatabaseService.get_logs\<close> without a limit: the filters, then \<open>ORDER BY t ASC\<close>
  (modelled as a stable sort): the numbers by value, then the texts.
\<close>

definition db_get_logs :: "database \<Rightarrow> string \<Rightarrow> string option \<Rightarrow> int option \<Rightarrow> int option
                              \<Rightarrow> log_dict list" where
  "db_get_logs d cid session tstart tend =
     (let rows = filter (\<lambda>r. raw_client_id r = cid
                  \<and> (truthy session \<longrightarrow> Some (raw_session_id r) = session)
                  \<and> (case tstart of None \<Rightarrow> True | Some s \<Rightarrow> t_ge (raw_t r) s)
                  \<and> (case tend of None \<Rightarrow> True | Some e \<Rightarrow> t_lt (raw_t r) e))
               (log_records d)
      in sort_key (\<lambda>r. num_val (raw_t r)) (filter (\<lambda>r. is_number (raw_t r)) rows)
         @ sort_key (\<lambda>r. text_val (raw_t r)) (filter (\<lambda>r. \<not> is_number (raw_t r)) rows))"

definition get_logs_from_db :: "world \<Rightarrow> string \<Rightarrow> string option \<Rightarrow> int option \<Rightarrow> int option
                                   \<Rightarrow> log_dict list \<times> world" where
  "get_logs_from_db w cid session tstart tend =
     (db_get_logs (db w) cid session tstart tend, w\<lparr> trace := trace w @ [Log_read] \<rparr>)"

text \<open>The filter shared by \<open>get_index\<close> and \<open>save_index\<close>.\<close>

definition index_matches :: "string \<Rightarrow> string option \<Rightarrow> index_row \<Rightarrow> bool" where
  "index_matches cid session row =
     (ir_client_id row = cid \<and> (truthy session \<longrightarrow> ir_session_id row = session))"

text \<open>\<open>DatabaseService.get_index\<close>: the data of \<open>query.first()\<close>, if any.\<close>

definition db_get_index :: "database \<Rightarrow> string \<Rightarrow> string option \<Rightarrow> StoredIndex option" where
  "db_get_index d cid session =
     (case filter (index_matches cid session) (user_indices d) of
        [] \<Rightarrow> None
      | row # rows \<Rightarrow> Some (index_data row))"

text \<open>
  \<open>DatabaseService.save_index\<close>: update the first matching row or add a new one. The
  row holds the JSON text of \<open>data\<close>, that is \<open>json_roundtrip data\<close> for every later
  read.
\<close>

fun update_first :: "('a \<Rightarrow> bool) \<Rightarrow> ('a \<Rightarrow> 'a) \<Rightarrow> 'a list \<Rightarrow> 'a list" where
  "update_first P f [] = []"
| "update_first P f (x # xs) = (if P x then f x # xs else x # update_first P f xs)"

definition db_save_index :: "database \<Rightarrow> string \<Rightarrow> UserIndex \<Rightarrow> string option \<Rightarrow> int option
                                \<Rightarrow> int option \<Rightarrow> database" where
  "db_save_index d cid data session tstart tend =
     (if filter (index_matches cid session) (user_indices d) \<noteq> []
      then d\<lparr> user_indices :=
                update_first (index_matches cid session)
                  (\<lambda>row. row\<lparr> index_data := json_roundtrip data, ir_time_start := tstart,
                             ir_time_end := tend \<rparr>)
                  (user_indices d) \<rparr>
      else d\<lparr> user_indices := user_indices d @
                [\<lparr> ir_client_id = cid, ir_session_id = session, ir_time_start = tstart,
                   ir_time_end = tend, index_data = json_roundtrip data \<rparr>] \<rparr>)"

text \<open>\<open>key.split(":")\<close>.\<close>

fun split_colon :: "string \<Rightarrow> string \<Rightarrow> string list" where
  "split_colon acc [] = [acc]"
| "split_colon acc (c # cs) =
     (if c = CHR '':'' then acc # split_colon [] cs else split_colon (acc @ [c]) cs)"

text \<open>The key \<open>index:<client_id>[:<session_id>]\<close> built by the indexer and the planner.\<close>

definition index_key :: "string \<Rightarrow> string option \<Rightarrow> string" where
  "index_key cid session =
     (case session of
        None \<Rightarrow> ''index:'' @ cid
      | Some s \<Rightarrow> if s = [] then ''index:'' @ cid else ''index:'' @ cid @ '':'' @ s)"

definition key_session :: "string list \<Rightarrow> string option" where
  "key_session parts = (if length parts > 2 then Some (parts ! 2) else None)"

definition read_index :: "world \<Rightarrow> string \<Rightarrow> StoredIndex option \<times> world" where
  "read_index w key =
     (let parts = split_colon [] key in
      if length parts < 2 then (None, w)
      else (db_get_index (db w) (parts ! 1) (key_session parts),
            w\<lparr> trace := trace w @ [Index_read] \<rparr>))"

text \<open>\<open>min\<close> and \<open>max\<close> of the keys of \<open>by_time\<close>, \<open>None\<close> when there are none.\<close>

definition keys_bound :: "(int \<Rightarrow> int \<Rightarrow> int) \<Rightarrow> int list \<Rightarrow> int option" where
  "keys_bound f ts = (case ts of [] \<Rightarrow> None | t # rest \<Rightarrow> Some (fold f rest t))"

definition persist_index :: "world \<Rightarrow> string \<Rightarrow> UserIndex \<Rightarrow> bool \<times> world" where
  "persist_index w key val =
     (let parts = split_colon [] key in
      if length parts < 2 then (False, w)
      else (let timestamps = map fst (by_time val) in
            (True, w\<lparr> db := db_save_index (db w) (parts ! 1) val (key_session parts)
                                 (keys_bound min timestamps) (keys_bound max timestamps),
                        trace := trace w @ [Index_write] \<rparr>)))"

text \<open>\<open>IndexerAgent.process_logs\<close>: fetch, build, persist.\<close>

definition process_logs :: "world \<Rightarrow> string \<Rightarrow> int option \<Rightarrow> int option \<Rightarrow> string option
                               \<Rightarrow> UserIndex \<times> world" where
  "process_logs w cid tstart tend session =
     (let r = get_logs_from_db w cid session tstart tend;
          index = build_index cid (fst r);
          p = persist_index (snd r) (index_key cid session) index
      in (index, snd p))"

section \<open>The query planner (query\_agent.py)\<close>

text \<open>
  The exceptions that leave \<open>handle_query\<close>. \<open>Out_of_range\<close> stands for what
  \<open>datetime.fromtimestamp\<close> raises on a timestamp outside the years 1 to 9999
  (\<open>ValueError\<close>, \<open>OSError\<close> or \<open>OverflowError\<close>, by the size of the value).
\<close>

datatype error = PermissionError string | ValueError | TypeError | Out_of_range

record QueryParams =
  qp_crash_near_m :: real
  qp_stuck_min_s :: int
  qp_conf_min :: real

definition default_params :: QueryParams where
  "default_params = \<lparr> qp_crash_near_m = CRASH_NEAR_M, qp_stuck_min_s = STUCK_MIN_S,
                       qp_conf_min = CONF_MIN \<rparr>"

text \<open>
  A time window. The planner passes \<open>int(start.timestamp())\<close> and
  \<open>int(end.timestamp())\<close> on; the model keeps the times as these whole seconds.
\<close>

record TimeWindow =
  tw_start :: int
  tw_end :: int
  tw_tz :: string

definition day_start :: "int \<Rightarrow> int" where
  "day_start now = now - now mod 86400"

text \<open>
  \<open>_parse_time_window\<close>. \<open>now\<close> is the reading of the clock in whole seconds and
  \<open>fromisoformat s\<close> the library call
  \<open>datetime.fromisoformat(s.replace("Z", "+00:00"))\<close>, \<open>None\<close> when it raises
  \<open>ValueError\<close>. The end is parsed before the start.
\<close>

definition parse_time_window :: "int \<Rightarrow> (string \<Rightarrow> int option) \<Rightarrow> string option \<Rightarrow> string option
                                    \<Rightarrow> string \<Rightarrow> error + TimeWindow" where
  "parse_time_window now fromisoformat start end tz =
     (let end_unset = (end = None \<or> end = Some ''now'');
          end_r = (case end of
                     None \<Rightarrow> Some now
                   | Some e \<Rightarrow> if e = ''now'' then Some now
                              else if e = ''today'' then Some (day_start now + 86399)
                              else fromisoformat e)
      in case end_r of
           None \<Rightarrow> Inl ValueError
         | Some end_dt \<Rightarrow>
             (case start of
                None \<Rightarrow> Inr \<lparr> tw_start = now - 7 * 86400, tw_end = end_dt, tw_tz = tz \<rparr>
              | Some s \<Rightarrow>
                  if s = ''today''
                  then Inr \<lparr> tw_start = day_start now,
                             tw_end = (if end_unset then day_start now + 86399 else end_dt),
                             tw_tz = tz \<rparr>
                  else if s = ''yesterday''
                  then Inr \<lparr> tw_start = day_start (now - 86400),
                             tw_end = day_start (now - 86400) + 86399, tw_tz = tz \<rparr>
                  else if s = ''last_7d'' \<or> s = ''last_week''
                  then Inr \<lparr> tw_start = now - 7 * 86400, tw_end = end_dt, tw_tz = tz \<rparr>
                  else (case fromisoformat s of
                          None \<Rightarrow> Inl ValueError
                        | Some start_dt \<Rightarrow>
                            Inr \<lparr> tw_start = start_dt, tw_end = end_dt, tw_tz = tz \<rparr>)))"

datatype metric_type = Almost_crash | Stuck_minutes | Stuck_intervals | Event_counts | Accident

text \<open>\<open>str.lower\<close> on ASCII letters.\<close>

definition lower_char :: "char \<Rightarrow> char" where
  "lower_char c =
     (let n = (of_char c :: nat) in if 65 \<le> n \<and> n \<le> 90 then char_of (n + 32) else c)"

text \<open>\<open>_classify_intent\<close>; the dict it returns beside the metric is always empty.\<close>

definition classify_intent :: "string \<Rightarrow> metric_type" where
  "classify_intent question =
     (let q_lower = map lower_char question in
      if \<exists>kw \<in> set [''almost crash'', ''near miss'', ''collision warning'', ''close call''].
           str_contains q_lower kw
      then Almost_crash
      else if str_contains q_lower ''stuck'' \<or> str_contains q_lower ''not moving''
                \<or> str_contains q_lower ''stationary''
      then (if str_contains q_lower ''interval'' \<or> str_contains q_lower ''when''
                 \<or> str_contains q_lower ''show''
            then Stuck_intervals else Stuck_minutes)
      else if \<exists>kw \<in> set [''accident'', ''fell'', ''fall'', ''collision'', ''crashed'', ''impact''].
                str_contains q_lower kw
      then Accident
      else Event_counts)"

text \<open>
  The index dict that the planner computes on: the one the indexer has just built, with
  int keys in \<open>by_time\<close>, or the one read from the store, with string keys.
\<close>

datatype index_dict = Built UserIndex | Cached StoredIndex

fun hazards_of :: "index_dict \<Rightarrow> hazards_t" where
  "hazards_of (Built index) = hazards index"
| "hazards_of (Cached index) = st_hazards index"

fun counters_of :: "index_dict \<Rightarrow> (string \<times> int) list" where
  "counters_of (Built index) = counters index"
| "counters_of (Cached index) = st_counters index"

fun by_class_of :: "index_dict \<Rightarrow> (string \<times> int) list" where
  "by_class_of (Built index) = by_class index"
| "by_class_of (Cached index) = st_by_class index"

text \<open>
  \<open>_load_index\<close>: the cached index if there is one (a stored index is a non-empty
  dict, hence truthy), else a rebuild.
\<close>

definition load_index :: "world \<Rightarrow> string \<Rightarrow> string option \<Rightarrow> int \<Rightarrow> int \<Rightarrow> index_dict \<times> world" where
  "load_index w cid session time_start time_end =
     (let c = read_index w (index_key cid session) in
      case fst c of
        Some cached \<Rightarrow> (Cached cached, snd c)
      | None \<Rightarrow>
          (let p = process_logs (snd c) cid (Some time_start) (Some time_end) session
           in (Built (fst p), snd p)))"

subsection \<open>Metrics\<close>

text \<open>
  The result dict of each metric and its samples. Timestamps that the source renders as
  ISO strings with \<open>datetime.fromtimestamp(t, tz=timezone.utc)\<close> stay integers; the
  call raises when \<open>t\<close> lies before the year 1 or after the year 9999.
  \<open>Minutes_of\<close> holds \<open>total_seconds\<close>; the source stores the float
  \<open>round(total_seconds / 60, 1)\<close>, a function of it.
\<close>

definition fromtimestamp_raises :: "int \<Rightarrow> bool" where
  "fromtimestamp_raises t = (t < - 62135596800 \<or> 253402300799 < t)"

datatype metric_result =
    Count nat
  | Minutes_of int
  | Intervals "(int \<times> int \<times> int) list"
  | Accident_result bool "int option" "rationale_t option"
  | Event_counts_result "(string \<times> int) list" "(string \<times> int) list"

datatype sample =
    Crash_sample moment
  | Interval_sample int int int
  | Accident_sample int "string list" "real option" real
  | Event_sample string int

text \<open>The timestamps of the first three moments are rendered for the samples.\<close>

definition compute_almost_crash :: "index_dict \<Rightarrow> QueryParams
                                       \<Rightarrow> error + metric_result \<times> sample list" where
  "compute_almost_crash index params =
     (let moments = almost_crash_moments (hazards_of index);
          filtered = filter (\<lambda>m. m_confidence m \<ge> qp_conf_min params
                               \<and> (case m_free_ahead_m m of None \<Rightarrow> True
                                   | Some d \<Rightarrow> d \<le> qp_crash_near_m params)) moments
      in if list_ex (\<lambda>m. fromtimestamp_raises (m_t m)) (take 3 filtered)
         then Inl Out_of_range
         else Inr (Count (length filtered), map Crash_sample (take 3 filtered)))"

text \<open>The bounds of the first three intervals are rendered for the samples.\<close>

definition compute_stuck_minutes :: "index_dict \<Rightarrow> QueryParams
                                        \<Rightarrow> error + metric_result \<times> sample list" where
  "compute_stuck_minutes index params =
     (let intervals = stuck_intervals (hazards_of index);
          filtered = filter (\<lambda>i. duration_s i \<ge> qp_stuck_min_s params) intervals;
          total_seconds = sum_list (map duration_s filtered)
      in if list_ex (\<lambda>i. fromtimestamp_raises (start_t i) \<or> fromtimestamp_raises (end_t i))
              (take 3 filtered)
         then Inl Out_of_range
         else Inr (Minutes_of total_seconds,
                   map (\<lambda>i. Interval_sample (start_t i) (end_t i) (duration_s i))
                       (take 3 filtered)))"

text \<open>The bounds of every interval are rendered for the result.\<close>

definition compute_stuck_intervals :: "index_dict \<Rightarrow> QueryParams
                                          \<Rightarrow> error + metric_result \<times> sample list" where
  "compute_stuck_intervals index params =
     (let intervals = stuck_intervals (hazards_of index);
          filtered = filter (\<lambda>i. duration_s i \<ge> qp_stuck_min_s params) intervals;
          result_intervals = map (\<lambda>i. (start_t i, end_t i, duration_s i)) filtered
      in if list_ex (\<lambda>i. fromtimestamp_raises (start_t i) \<or> fromtimestamp_raises (end_t i))
              filtered
         then Inl Out_of_range
         else Inr (Intervals result_intervals,
                   map (\<lambda>iv. Interval_sample (fst iv) (fst (snd iv)) (snd (snd iv)))
                       (take 3 result_intervals)))"

text \<open>
  \<open>_compute_accident\<close> on an index with int keys in \<open>by_time\<close>, as the indexer
  builds it: \<open>compute_accident\<close> is the result dict and the sample that the patterns
  determine, and \<open>compute_accident_built\<close> adds the rendering of the timestamp of
  the sample, which can raise. First the look-ahead of pattern 2 over
  \<open>records[i + 1:]\<close>.
\<close>

fun look_ahead :: "int \<Rightarrow> (int \<times> LogRecord) list \<Rightarrow> bool \<Rightarrow> int \<Rightarrow> bool \<times> int" where
  "look_ahead t [] stop_found no_proceed = (stop_found, no_proceed)"
| "look_ahead t (item # rest) stop_found no_proceed =
     (let t2 = fst item; rec2 = snd item in
      if t2 - t > ACCIDENT_PATTERN_WINDOW_S + ACCIDENT_NO_PROCEED_S
      then (stop_found, no_proceed)
      else (let stop_found' = (stop_found \<or> ''stop'' \<in> set (events rec2)) in
            if stop_found'
            then (if \<exists>e \<in> set (events rec2). is_directional_event e
                  then (stop_found', no_proceed)
                  else look_ahead t rest stop_found' (t2 - t))
            else look_ahead t rest stop_found' no_proceed))"

text \<open>Pattern 2 of \<open>_compute_accident\<close>: every record is an anchor candidate.\<close>

fun qa_pattern2 :: "(int \<times> LogRecord) list \<Rightarrow> (int \<times> LogRecord \<times> real \<times> int) option" where
  "qa_pattern2 [] = None"
| "qa_pattern2 (item # rest) =
     (let t = fst item; rec = snd item in
      if \<not> intersects (events rec) OBSTACLE_EVENTS then qa_pattern2 rest
      else if confidence rec < ACCIDENT_CONF then qa_pattern2 rest
      else case free_ahead_m rec of
             None \<Rightarrow> qa_pattern2 rest
           | Some depth \<Rightarrow>
               if depth > ACCIDENT_DEPTH_M then qa_pattern2 rest
               else (let r = look_ahead t rest False 0 in
                     if fst r \<and> snd r \<ge> ACCIDENT_NO_PROCEED_S
                     then Some (t, rec, depth, snd r)
                     else qa_pattern2 rest))"

definition compute_accident :: "UserIndex \<Rightarrow> QueryParams \<Rightarrow> metric_result \<times> sample list" where
  "compute_accident index params =
     (let records = sort_key fst (by_time index) in
      case filter (\<lambda>item. intersects (events (snd item)) ACCIDENT_EVENTS) records of
        item # others \<Rightarrow>
          (Accident_result True (Some (fst item))
             (Some (Direct_accident
                (filter (\<lambda>e. e \<in> ACCIDENT_EVENTS) (remdups (events (snd item)))))),
           [Accident_sample (fst item) (remdups (events (snd item))) None
              (confidence (snd item))])
      | [] \<Rightarrow>
          (case qa_pattern2 records of
             Some (t, rec, depth, no_proceed) \<Rightarrow>
               (Accident_result True (Some t) (Some (Obstacle_stop depth no_proceed)),
                [Accident_sample t (remdups (events rec)) (Some depth) (confidence rec)])
           | None \<Rightarrow> (Accident_result False None None, [])))"

definition compute_accident_built :: "UserIndex \<Rightarrow> QueryParams
                                         \<Rightarrow> error + metric_result \<times> sample list" where
  "compute_accident_built index params =
     (let r = compute_accident index params in
      if list_ex (\<lambda>smp. case smp of Accident_sample t evs depth conf \<Rightarrow> fromtimestamp_raises t
                           | _ \<Rightarrow> False) (snd r)
      then Inl Out_of_range
      else Inr r)"

text \<open>
  \<open>_compute_accident\<close> on an index read from the store: the same statements, run on
  string keys. The records are sorted by their keys as strings. Pattern 1 stops at the
  first record with an accident event and raises \<open>TypeError\<close> when it builds the
  sample, at \<open>datetime.fromtimestamp(t)\<close> with \<open>t\<close> a string. In pattern 2 the
  look-ahead raises \<open>TypeError\<close> in its first step, at \<open>t2 - t\<close> on two strings;
  an anchor that is the last record has no look-ahead and is passed over. So the walk
  over the anchors either raises or finds nothing.
\<close>

fun qa_pattern2_cached :: "(string \<times> LogRecord) list \<Rightarrow> error + unit" where
  "qa_pattern2_cached [] = Inr ()"
| "qa_pattern2_cached (item # rest) =
     (let rec = snd item in
      if \<not> intersects (events rec) OBSTACLE_EVENTS then qa_pattern2_cached rest
      else if confidence rec < ACCIDENT_CONF then qa_pattern2_cached rest
      else case free_ahead_m rec of
             None \<Rightarrow> qa_pattern2_cached rest
           | Some depth \<Rightarrow>
               if depth > ACCIDENT_DEPTH_M then qa_pattern2_cached rest
               else if rest = [] then qa_pattern2_cached rest
               else Inl TypeError)"

definition compute_accident_cached :: "StoredIndex \<Rightarrow> QueryParams
                                          \<Rightarrow> error + metric_result \<times> sample list" where
  "compute_accident_cached index params =
     (let records = sort_key fst (st_by_time index) in
      case filter (\<lambda>item. intersects (events (snd item)) ACCIDENT_EVENTS) records of
        item # others \<Rightarrow> Inl TypeError
      | [] \<Rightarrow>
          (case qa_pattern2_cached records of
             Inl e \<Rightarrow> Inl e
           | Inr u \<Rightarrow> Inr (Accident_result False None None, [])))"

text \<open>
  \<open>sorted(..., reverse=True)\<close> is stable: entries with equal counts keep their order.
\<close>

definition compute_event_counts :: "index_dict \<Rightarrow> QueryParams \<Rightarrow> metric_result \<times> sample list" where
  "compute_event_counts index params =
     (let top_events = take 3 (rev (sort_key snd (rev (counters_of index))))
      in (Event_counts_result (counters_of index) (by_class_of index),
          map (\<lambda>ec. Event_sample (fst ec) (snd ec)) top_events))"

text \<open>\<open>_compute_metric\<close>; \<open>Inl\<close> is the exception that the metric raises.\<close>

definition compute_metric :: "metric_type \<Rightarrow> index_dict \<Rightarrow> QueryParams
                                 \<Rightarrow> error + metric_result \<times> sample list" where
  "compute_metric metric index params =
     (if metric = Almost_crash then compute_almost_crash index params
      else if metric = Stuck_minutes then compute_stuck_minutes index params
      else if metric = Stuck_intervals then compute_stuck_intervals index params
      else if metric = Accident
      then (case index of
              Built built \<Rightarrow> compute_accident_built built params
            | Cached cached \<Rightarrow> compute_accident_cached cached params)
      else Inr (compute_event_counts index params))"

text \<open>
  The answers are f-strings; the model keeps the template and its arguments. The
  timestamp that the accident answer renders is the one of the sample, rendered before.
  The result always has the shape of its metric, so the last equation is never used.
\<close>

datatype answer_t =
    Near_miss_answer nat
  | Minutes_answer int
  | Stuck_intervals_answer nat
  | Accident_answer int "rationale_t option"
  | No_accident_answer
  | Total_events_answer int
  | No_answer

fun format_answer :: "metric_type \<Rightarrow> metric_result \<Rightarrow> TimeWindow \<Rightarrow> answer_t" where
  "format_answer Almost_crash (Count c) tw = Near_miss_answer c"
| "format_answer Stuck_minutes (Minutes_of s) tw = Minutes_answer s"
| "format_answer Stuck_intervals (Intervals ivs) tw = Stuck_intervals_answer (length ivs)"
| "format_answer Accident (Accident_result True (Some t) why) tw = Accident_answer t why"
| "format_answer Accident (Accident_result False t why) tw = No_accident_answer"
| "format_answer Event_counts (Event_counts_result by_ev by_cl) tw =
     Total_events_answer (sum_list (map snd by_ev))"
| "format_answer m r tw = No_answer"

record QueryResponse =
  qr_client_id :: string
  qr_time_window :: TimeWindow
  qr_metric :: metric_type
  qr_params :: QueryParams
  qr_result :: metric_result
  qr_samples :: "sample list"

subsection \<open>handle\_query\<close>

definition handle_query :: "world \<Rightarrow> int \<Rightarrow> (string \<Rightarrow> int option) \<Rightarrow> string \<Rightarrow> string \<Rightarrow> string
    \<Rightarrow> string option \<Rightarrow> string option \<Rightarrow> string option \<Rightarrow> string \<Rightarrow> QueryParams option
    \<Rightarrow> (error + answer_t \<times> QueryResponse) \<times> world" where
  "handle_query w now fromisoformat requester_id cid question session time_start time_end tz params =
     (let a = is_authorized w requester_id cid in
      if \<not> fst a then (Inl (PermissionError requester_id), snd a)
      else case parse_time_window now fromisoformat time_start time_end tz of
             Inl e \<Rightarrow> (Inl e, snd a)
           | Inr time_window \<Rightarrow>
               (let params' = (case params of None \<Rightarrow> default_params | Some p \<Rightarrow> p);
                    metric = classify_intent question;
                    l = load_index (snd a) cid session (tw_start time_window) (tw_end time_window)
                in case compute_metric metric (fst l) params' of
                     Inl e \<Rightarrow> (Inl e, snd l)
                   | Inr r \<Rightarrow>
                       (Inr (format_answer metric (fst r) time_window,
                             \<lparr> qr_client_id = cid, qr_time_window = time_window,
                               qr_metric = metric, qr_params = params', qr_result = fst r,
                               qr_samples = take 3 (snd r) \<rparr>),
                        snd l)))"

definition alice_index :: UserIndex where
  "alice_index = build_index ''alice'' [obstacle_row 100 (Some 0.3), obstacle_row 200 None]"

definition alice_world :: world where
  "alice_world =
     \<lparr> db = \<lparr> log_records = [obstacle_row 100 (Some 0.3), obstacle_row 200 None, obstacle_row 300 None],
              user_indices = [\<lparr> ir_client_id = ''alice'', ir_session_id = None,
                                ir_time_start = Some 100, ir_time_end = Some 200,
                                index_data = json_roundtrip alice_index \<rparr>],
              emergency_contacts = [\<lparr> ec_client_id = ''alice'', ec_contact_id = ''carol'',
                                      authorized = 1 \<rparr>,
                                    \<lparr> ec_client_id = ''alice'', ec_contact_id = ''bob'',
                                      authorized = 0 \<rparr>,
                                    \<lparr> ec_client_id = ''dave'', ec_contact_id = ''carol'',
                                      authorized = 1 \<rparr>] \<rparr>,
       trace = [] \<rparr>"

text \<open>The three records of scenario S3.\<close>

definition s3_records :: "LogRecord list" where
  "s3_records = [obstacle_record 10000, event_record 10003 [''stop''], event_record 10035 [''stop'']]"


section \<open>Properties of the indexer\<close>

subsection \<open>Validation and the drop counter\<close>

lemma upd_dropped_events:
  "idx\<lparr>dropped_records := k, by_event := x, counters := y\<rparr>
     = idx\<lparr>by_event := x, counters := y, dropped_records := k\<rparr>"
  by simp

lemma upd_dropped_class:
  "idx\<lparr>dropped_records := k, by_class := x\<rparr> = idx\<lparr>by_class := x, dropped_records := k\<rparr>"
  by simp

lemma upd_dropped_time:
  "idx\<lparr>dropped_records := k, by_time := x\<rparr> = idx\<lparr>by_time := x, dropped_records := k\<rparr>"
  by simp

lemma add_events_dropped:
  "add_events t es (idx\<lparr>dropped_records := k\<rparr>) = (add_events t es idx)\<lparr>dropped_records := k\<rparr>"
proof (induction es arbitrary: idx)
  case Nil
  show ?case by simp
next
  case (Cons e es)
  show ?case
    using Cons.IH [of "idx\<lparr> by_event := dict_set e (dict_get (by_event idx) e [] @ [t]) (by_event idx),
                           counters := dict_set e (dict_get (counters idx) e 0 + 1) (counters idx) \<rparr>"]
    by (simp add: upd_dropped_events)
qed

lemma add_classes_dropped:
  "add_classes cs (idx\<lparr>dropped_records := k\<rparr>) = (add_classes cs idx)\<lparr>dropped_records := k\<rparr>"
proof (induction cs arbitrary: idx)
  case Nil
  show ?case by simp
next
  case (Cons c cs)
  show ?case
    using Cons.IH [of "idx\<lparr> by_class := dict_set c (dict_get (by_class idx) c 0 + 1) (by_class idx) \<rparr>"]
    by (simp add: upd_dropped_class)
qed

lemma add_events_dropped_same: "dropped_records (add_events t es idx) = dropped_records idx"
  by (induction es arbitrary: idx) simp_all

lemma add_classes_dropped_same: "dropped_records (add_classes cs idx) = dropped_records idx"
  by (induction cs arbitrary: idx) simp_all

lemma add_to_index_dropped:
  "add_to_index (idx\<lparr>dropped_records := k\<rparr>) r = (add_to_index idx r)\<lparr>dropped_records := k\<rparr>"
  by (simp add: add_to_index_def Let_def upd_dropped_time add_events_dropped add_classes_dropped split: option.splits)

lemma add_to_index_dropped_same: "dropped_records (add_to_index idx r) = dropped_records idx"
  by (simp add: add_to_index_def Let_def add_events_dropped_same add_classes_dropped_same split: option.splits)

lemma process_one_bump:
  "process_one (idx\<lparr>dropped_records := dropped_records idx + n\<rparr>) d
     = (process_one idx d)\<lparr>dropped_records := dropped_records (process_one idx d) + n\<rparr>"
  by (simp add: process_one_def Let_def add_to_index_dropped add_to_index_dropped_same)

lemma foldl_process_one_bump:
  "foldl process_one (idx\<lparr>dropped_records := dropped_records idx + n\<rparr>) ds
     = (foldl process_one idx ds)\<lparr>dropped_records := dropped_records (foldl process_one idx ds) + n\<rparr>"
  by (induction ds arbitrary: idx) (simp_all add: process_one_bump)

lemma find_almost_crashes_dropped:
  "find_almost_crashes (idx\<lparr>dropped_records := k\<rparr>) a b = find_almost_crashes idx a b"
  by (simp add: find_almost_crashes_def)

lemma find_stuck_intervals_dropped:
  "find_stuck_intervals (idx\<lparr>dropped_records := k\<rparr>) a = find_stuck_intervals idx a"
  by (simp add: find_stuck_intervals_def)

lemma compute_hazards_dropped:
  "compute_hazards (idx\<lparr>dropped_records := k\<rparr>) = compute_hazards idx"
  by (simp add: compute_hazards_def find_almost_crashes_dropped find_stuck_intervals_dropped)

text \<open>
  Claim C5. A record whose confidence lies outside \<open>[0, 1]\<close> fails validation; the
  loop of \<open>process_logs\<close> leaves the index as it was and adds exactly 1 to
  \<open>dropped_records\<close>. For the whole build: the index built from a record list that
  contains the record equals the index built without it (\<open>by_time\<close>, \<open>by_event\<close>,
  \<open>counters\<close>, \<open>by_class\<close> and \<open>hazards\<close> included), except that
  \<open>dropped_records\<close> is larger by exactly 1.
\<close>

theorem invalid_confidence_dropped:
  assumes "num_val (raw_confidence d) < 0 \<or> 1 < num_val (raw_confidence d)"
  shows "\<not> validate_record d
       \<and> process_one index d = index\<lparr>dropped_records := dropped_records index + 1\<rparr>
       \<and> build_index cid (pre @ d # post)
           = (build_index cid (pre @ post))
               \<lparr>dropped_records := dropped_records (build_index cid (pre @ post)) + 1\<rparr>"
proof -
  have inv: "\<not> validate_record d"
    using assms by (auto simp: validate_record_def)
  have one: "\<And>ix. process_one ix d = ix\<lparr>dropped_records := dropped_records ix + 1\<rparr>"
    using inv by (simp add: process_one_def)
  have "build_index cid (pre @ d # post)
           = (build_index cid (pre @ post))
               \<lparr>dropped_records := dropped_records (build_index cid (pre @ post)) + 1\<rparr>"
    by (simp add: build_index_def Let_def one foldl_process_one_bump compute_hazards_dropped)
  with inv one show ?thesis by blast
qed

theorem invalid_confidence_dropped_witness:
  "(num_val (raw_confidence bad_conf) < 0 \<or> 1 < num_val (raw_confidence bad_conf))
   \<and> dropped_records (build_index ''alice'' ([good_rec] @ bad_conf # [])) = 1
   \<and> map fst (by_time (build_index ''alice'' ([good_rec] @ bad_conf # []))) = [90]"
proof -
  have h: "num_val (raw_confidence bad_conf) < 0 \<or> 1 < num_val (raw_confidence bad_conf)"
    by (simp add: bad_conf_def)
  have d0: "dropped_records (build_index ''alice'' [good_rec]) = 0"
    by (simp add: build_index_def Let_def process_one_def validate_record_def
        add_to_index_dropped_same add_to_index_raises_def to_record_def good_rec_def
        empty_index_def)
  have bt: "map fst (by_time (build_index ''alice'' [good_rec])) = [90]"
    by (simp add: build_index_def process_one_def validate_record_def add_to_index_def
        add_to_index_raises_def Let_def empty_index_def to_record_def good_rec_def)
  show ?thesis
    using h invalid_confidence_dropped [OF h, where cid = "''alice''" and pre = "[good_rec]" and post = "[]"] d0 bt by simp
qed

text \<open>
  Claim C6 as stated fails: a record whose \<open>events\<close> is the empty list passes
  \<open>_validate_record\<close>, which only checks that \<open>events\<close> is a list. It is stored
  in \<open>by_time\<close> and \<open>dropped_records\<close> stays 0.
\<close>

theorem empty_events_counterexample:
  "raw_events no_events = PList []
   \<and> validate_record no_events
   \<and> dropped_records (build_index ''alice'' [no_events]) = 0
   \<and> by_time (build_index ''alice'' [no_events]) = [(100, to_record no_events)]"
  by (simp add: validate_record_def no_events_def build_index_def Let_def process_one_def
      add_to_index_def add_to_index_raises_def empty_index_def to_record_def)

lemma map_of_dict_set: "map_of (dict_set k v d) = (map_of d)(k \<mapsto> v)"
  by (induction d) auto

lemma add_classes_fields:
  "by_time (add_classes cs idx) = by_time idx"
  "by_event (add_classes cs idx) = by_event idx"
  "counters (add_classes cs idx) = counters idx"
  by (induction cs arbitrary: idx) simp_all

text \<open>
  Claim C6, amended. A record whose \<open>events\<close> field is not a list fails validation
  and is dropped and counted. A record whose \<open>events\<close> is the empty list, whose
  \<open>t\<close> is an int and whose confidence is a number in \<open>[0, 1]\<close> passes validation:
  it is stored in \<open>by_time\<close> under its \<open>t\<close> and adds nothing to \<open>by_event\<close>
  and \<open>counters\<close>. It is counted in \<open>dropped_records\<close> only when adding it to the
  index raises. With \<open>classes\<close> \<open>None\<close>, falsy, a string or a list of labels
  nothing is raised and \<open>dropped_records\<close> is unchanged. With \<open>classes\<close>
  \<open>True\<close> or a number other than 0, a truthy value that cannot be iterated, the loop
  over \<open>classes\<close> raises after \<open>by_time\<close> was written: the record is counted in
  \<open>dropped_records\<close> and stays in \<open>by_time\<close>.
\<close>

theorem events_validation:
  "(\<not> is_list (raw_events d) \<longrightarrow>
      \<not> validate_record d
      \<and> process_one index d = index\<lparr>dropped_records := dropped_records index + 1\<rparr>)
   \<and> (raw_events d = PList [] \<and> is_int (raw_t d) \<and> is_number (raw_confidence d)
        \<and> 0 \<le> num_val (raw_confidence d) \<and> num_val (raw_confidence d) \<le> 1 \<longrightarrow>
      validate_record d
      \<and> map_of (by_time (process_one index d)) (int_val (raw_t d)) = Some (to_record d)
      \<and> by_event (process_one index d) = by_event index
      \<and> counters (process_one index d) = counters index
      \<and> dropped_records (process_one index d)
          = dropped_records index + (if add_to_index_raises (to_record d) then 1 else 0)
      \<and> add_to_index_raises (to_record d)
          = (case raw_classes d of
               PBool b \<Rightarrow> b | PInt i \<Rightarrow> i \<noteq> 0 | PFloat x \<Rightarrow> x \<noteq> 0
             | PNone \<Rightarrow> False | PStr s \<Rightarrow> False | PList cs \<Rightarrow> False))"
proof (intro conjI impI)
  assume "\<not> is_list (raw_events d)"
  then show nv: "\<not> validate_record d"
    by (simp add: validate_record_def)
  then show "process_one index d = index\<lparr>dropped_records := dropped_records index + 1\<rparr>"
    by (simp add: process_one_def)
next
  assume a: "raw_events d = PList [] \<and> is_int (raw_t d) \<and> is_number (raw_confidence d)
        \<and> 0 \<le> num_val (raw_confidence d) \<and> num_val (raw_confidence d) \<le> 1"
  then show v: "validate_record d"
    by (simp add: validate_record_def)
  have ev: "events (to_record d) = []"
    using a by (simp add: to_record_def)
  have rt: "rec_t (to_record d) = int_val (raw_t d)"
    by (simp add: to_record_def)
  have bt: "map_of (by_time (add_to_index index (to_record d))) (int_val (raw_t d))
      = Some (to_record d)"
    by (simp add: add_to_index_def Let_def ev rt add_classes_fields map_of_dict_set
        split: option.splits)
  have be: "by_event (add_to_index index (to_record d)) = by_event index"
    by (simp add: add_to_index_def Let_def ev add_classes_fields split: option.splits)
  have co: "counters (add_to_index index (to_record d)) = counters index"
    by (simp add: add_to_index_def Let_def ev add_classes_fields split: option.splits)
  show "map_of (by_time (process_one index d)) (int_val (raw_t d)) = Some (to_record d)"
    using v bt by (simp add: process_one_def Let_def)
  show "by_event (process_one index d) = by_event index"
    using v be by (simp add: process_one_def Let_def)
  show "counters (process_one index d) = counters index"
    using v co by (simp add: process_one_def Let_def)
  show "dropped_records (process_one index d)
          = dropped_records index + (if add_to_index_raises (to_record d) then 1 else 0)"
    using v by (simp add: process_one_def Let_def add_to_index_dropped_same)
  show "add_to_index_raises (to_record d)
          = (case raw_classes d of
               PBool b \<Rightarrow> b | PInt i \<Rightarrow> i \<noteq> 0 | PFloat x \<Rightarrow> x \<noteq> 0
             | PNone \<Rightarrow> False | PStr s \<Rightarrow> False | PList cs \<Rightarrow> False)"
    by (cases "raw_classes d") (simp_all add: add_to_index_raises_def to_record_def)
qed

theorem events_validation_witness:
  "\<not> is_list (raw_events events_not_list)
   \<and> process_one (empty_index ''alice'') events_not_list
        = (empty_index ''alice'')\<lparr>dropped_records := 1\<rparr>
   \<and> raw_events no_events = PList [] \<and> is_int (raw_t no_events)
   \<and> is_number (raw_confidence no_events)
   \<and> 0 \<le> num_val (raw_confidence no_events) \<and> num_val (raw_confidence no_events) \<le> 1
   \<and> dropped_records (process_one (empty_index ''alice'') no_events) = 0
   \<and> map_of (by_time (process_one (empty_index ''alice'') no_events)) 100
        = Some (to_record no_events)
   \<and> raw_events no_events_classes_5 = PList [] \<and> is_int (raw_t no_events_classes_5)
   \<and> is_number (raw_confidence no_events_classes_5)
   \<and> 0 \<le> num_val (raw_confidence no_events_classes_5)
   \<and> num_val (raw_confidence no_events_classes_5) \<le> 1
   \<and> dropped_records (process_one (empty_index ''alice'') no_events_classes_5) = 1
   \<and> map_of (by_time (process_one (empty_index ''alice'') no_events_classes_5)) 100
        = Some (to_record no_events_classes_5)"
proof -
  have h1: "\<not> is_list (raw_events events_not_list)"
    by (simp add: events_not_list_def)
  have h2: "raw_events no_events = PList [] \<and> is_int (raw_t no_events)
     \<and> is_number (raw_confidence no_events)
     \<and> 0 \<le> num_val (raw_confidence no_events) \<and> num_val (raw_confidence no_events) \<le> 1"
    by (simp add: no_events_def)
  have h3: "raw_events no_events_classes_5 = PList [] \<and> is_int (raw_t no_events_classes_5)
     \<and> is_number (raw_confidence no_events_classes_5)
     \<and> 0 \<le> num_val (raw_confidence no_events_classes_5)
     \<and> num_val (raw_confidence no_events_classes_5) \<le> 1"
    by (simp add: no_events_classes_5_def)
  have t: "int_val (raw_t no_events) = 100" "int_val (raw_t no_events_classes_5) = 100"
    by (simp_all add: no_events_def no_events_classes_5_def)
  have c: "raw_classes no_events = PNone" "raw_classes no_events_classes_5 = PInt 5"
    by (simp_all add: no_events_def no_events_classes_5_def)
  have z: "dropped_records (empty_index ''alice'') = 0"
    by (simp add: empty_index_def)
  show ?thesis
    using h1 h2 h3 t c z
      events_validation [where d = events_not_list and index = "empty_index ''alice''"]
      events_validation [where d = no_events and index = "empty_index ''alice''"]
      events_validation [where d = no_events_classes_5 and index = "empty_index ''alice''"]
    by simp
qed

subsection \<open>Near-miss merging\<close>

lemma hazards_build_index:
  "hazards (build_index cid rows) = compute_hazards (foldl process_one (empty_index cid) rows)"
  by (simp add: build_index_def Let_def)

lemma by_time_two_rows:
  "by_time (process_one (process_one (empty_index ''alice'') (obstacle_row 100 a)) (obstacle_row 101 b))
    = [(100, to_record (obstacle_row 100 a)), (101, to_record (obstacle_row 101 b))]"
  by (simp add: process_one_def validate_record_def obstacle_row_def add_to_index_def
      add_to_index_raises_def Let_def empty_index_def to_record_def)

lemma candidate_of_obstacle_row:
  "(case d of None \<Rightarrow> True | Some x \<Rightarrow> x \<le> 0.6) \<Longrightarrow>
   candidate_of CRASH_NEAR_M CONF_MIN (t, to_record (obstacle_row t d)) = Some (obstacle_moment t d)"
  by (simp add: candidate_of_def intersects_def OBSTACLE_EVENTS_def
      to_record_def obstacle_row_def CONF_MIN_def CRASH_NEAR_M_def obstacle_moment_def
      split: option.splits)

text \<open>
  Claim C2 against the code. The representative of a group is chosen by the key
  \<open>x["free_ahead_m"] or 999\<close>, and \<open>0.0 or 999\<close> is 999. With candidates at
  \<open>t = 100\<close> (depth 0.5) and \<open>t = 101\<close> (depth 0.0) in one group the representative is
  the one with depth 0.5, although 0.0 is strictly smaller; with a missing depth at
  \<open>t = 100\<close> and depth 0.0 at \<open>t = 101\<close> the keys tie at 999 and the first, the one
  without depth, is chosen.
\<close>

theorem zero_depth_not_selected:
  "almost_crash_moments (hazards (build_index ''alice''
       [obstacle_row 100 (Some 0.5), obstacle_row 101 (Some 0)]))
     = [obstacle_moment 100 (Some 0.5)]
   \<and> almost_crash_moments (hazards (build_index ''alice''
       [obstacle_row 100 None, obstacle_row 101 (Some 0)]))
     = [obstacle_moment 100 None]"
  by (simp add: hazards_build_index compute_hazards_def find_almost_crashes_def
      by_time_two_rows candidate_of_obstacle_row
      merge_candidates_def obstacle_moment_def MERGE_WINDOW_S_def depth_key_def)

lemma min_from_mem: "min_from g gs \<in> set (g # gs)"
proof (induction gs arbitrary: g)
  case Nil
  show ?case by simp
next
  case (Cons x xs)
  show ?case
    using Cons.IH [of "if depth_key x < depth_key g then x else g"] by auto
qed

lemma sorted_group_bounds:
  assumes "sorted (map f (g # gs @ rest))" and "x \<in> set (g # gs)"
  shows "f g \<le> f x" and "f x \<le> f (last (g # gs))"
proof -
  have s: "sorted (map f (g # gs))"
    using assms(1) by (simp add: sorted_append)
  show "f g \<le> f x"
    using s assms(2) by auto
  have "sorted (map f (butlast (g # gs)) @ [f (last (g # gs))])"
    using s by (metis append_butlast_last_id list.distinct(1) list.simps(9) map_append list.map(1))
  then have "\<forall>y \<in> set (butlast (g # gs)). f y \<le> f (last (g # gs))"
    by (simp add: sorted_append)
  moreover have "x \<in> set (butlast (g # gs)) \<or> x = last (g # gs)"
    using assms(2) by (metis append_butlast_last_id list.distinct(1) rotate1.simps(2) set_ConsD set_rotate1)
  ultimately show "f x \<le> f (last (g # gs))"
    by auto
qed

lemma merge_loop_separated_id:
  "sorted_wrt (\<lambda>a b. m_t a + MERGE_WINDOW_S < m_t b) (g # xs)
     \<Longrightarrow> merge_loop xs g [] merged = merged @ g # xs"
proof (induction xs arbitrary: g merged)
  case Nil
  show ?case by simp
next
  case (Cons c cs)
  have gap: "\<not> m_t c - m_t g \<le> MERGE_WINDOW_S"
    using Cons.prems by simp
  have "sorted_wrt (\<lambda>a b. m_t a + MERGE_WINDOW_S < m_t b) (c # cs)"
    using Cons.prems by simp
  then have "merge_loop cs c [] (merged @ [g]) = (merged @ [g]) @ c # cs"
    by (rule Cons.IH)
  then show ?case
    using gap by simp
qed

lemma merge_loop_separated:
  assumes "sorted (map m_t (g # gs @ cs))"
    and "sorted_wrt (\<lambda>a b. m_t a + MERGE_WINDOW_S < m_t b) merged"
    and "\<forall>m \<in> set merged. m_t m + MERGE_WINDOW_S < m_t g"
  shows "sorted_wrt (\<lambda>a b. m_t a + MERGE_WINDOW_S < m_t b) (merge_loop cs g gs merged)"
  using assms
proof (induction cs arbitrary: g gs merged)
  case Nil
  have "m_t g \<le> m_t (min_from g gs)"
    using sorted_group_bounds(1) [of m_t g gs "[]" "min_from g gs"] Nil.prems(1) min_from_mem
    by simp
  then show ?case
    using Nil.prems by (auto simp: sorted_wrt_append)
next
  case (Cons c cs)
  let ?r = "min_from g gs"
  have r_lo: "m_t g \<le> m_t ?r" and r_hi: "m_t ?r \<le> m_t (last (g # gs))"
    using sorted_group_bounds [of m_t g gs "c # cs" ?r] Cons.prems(1) min_from_mem by blast+
  show ?case
  proof (cases "m_t c - m_t (last (g # gs)) \<le> MERGE_WINDOW_S")
    case True
    have "sorted_wrt (\<lambda>a b. m_t a + MERGE_WINDOW_S < m_t b) (merge_loop cs g (gs @ [c]) merged)"
      using Cons.prems by (intro Cons.IH) simp_all
    then show ?thesis using True by simp
  next
    case False
    have g_c: "m_t g \<le> m_t c"
      using Cons.prems(1) by (simp add: sorted_append)
    have 1: "sorted (map m_t (c # [] @ cs))"
      using Cons.prems(1) by (simp add: sorted_append)
    have 2: "sorted_wrt (\<lambda>a b. m_t a + MERGE_WINDOW_S < m_t b) (merged @ [?r])"
      using Cons.prems(2,3) r_lo by (auto simp: sorted_wrt_append)
    have 3: "\<forall>m \<in> set (merged @ [?r]). m_t m + MERGE_WINDOW_S < m_t c"
      using Cons.prems(3) g_c r_hi False by auto
    have "sorted_wrt (\<lambda>a b. m_t a + MERGE_WINDOW_S < m_t b) (merge_loop cs c [] (merged @ [?r]))"
      using 1 2 3 by (rule Cons.IH)
    then show ?thesis using False by simp
  qed
qed

lemma merge_candidates_separated:
  "sorted_wrt (\<lambda>a b. m_t a + MERGE_WINDOW_S < m_t b) (merge_candidates cs)"
proof (cases "sort_key m_t cs")
  case Nil
  then show ?thesis by (simp add: merge_candidates_def)
next
  case (Cons c rest)
  have "sorted (map m_t (sort_key m_t cs))"
    by (rule sorted_sort_key)
  then have "sorted (map m_t (c # [] @ rest))"
    using Cons by simp
  then have "sorted_wrt (\<lambda>a b. m_t a + MERGE_WINDOW_S < m_t b) (merge_loop rest c [] [])"
    by (rule merge_loop_separated) simp_all
  then show ?thesis using Cons by (simp add: merge_candidates_def)
qed

lemma merge_candidates_id_if_separated:
  assumes "sorted_wrt (\<lambda>a b. m_t a + MERGE_WINDOW_S < m_t b) xs"
  shows "merge_candidates xs = xs"
proof -
  have "sorted_wrt (\<lambda>a b. m_t a \<le> m_t b) xs"
    using assms by (rule sorted_wrt_mono_rel [rotated]) (simp add: MERGE_WINDOW_S_def)
  then have "sorted (map m_t xs)"
    by (simp add: sorted_map)
  then have s: "sort_key m_t xs = xs"
    by (rule sort_key_id_if_sorted)
  show ?thesis
  proof (cases xs)
    case Nil
    then show ?thesis by (simp add: merge_candidates_def)
  next
    case (Cons g rest)
    then show ?thesis
      using assms s merge_loop_separated_id [of g rest "[]"] by (simp add: merge_candidates_def)
  qed
qed

text \<open>
  Claim C8. The sort-and-merge step is idempotent: applied to its own output, it returns
  that output unchanged, for every candidate list. The representatives of two different
  groups are more than \<open>MERGE_WINDOW_S\<close> apart, so each forms a group of its own in
  the second pass.
\<close>

theorem merge_candidates_idempotent:
  "merge_candidates (merge_candidates candidates) = merge_candidates candidates"
  by (rule merge_candidates_id_if_separated) (rule merge_candidates_separated)

subsection \<open>Stuck intervals\<close>

lemma emit_inv:
  assumes "\<forall>iv \<in> set ivs. interval_ok m iv"
    and "sorted_wrt (\<lambda>a b. end_t a \<le> start_t b) ivs"
    and "fst cur \<le> snd cur" and "\<forall>iv \<in> set ivs. end_t iv \<le> fst cur"
  shows "(\<forall>iv \<in> set (emit m cur ivs). interval_ok m iv)
       \<and> sorted_wrt (\<lambda>a b. end_t a \<le> start_t b) (emit m cur ivs)
       \<and> (\<forall>iv \<in> set (emit m cur ivs). end_t iv \<le> snd cur)"
  using assms by (auto simp: emit_def Let_def interval_ok_def sorted_wrt_append)

lemma walk_step_inv:
  assumes "walk_inv m hi w" and "hi \<le> fst item"
  shows "walk_inv m (fst item) (walk_step m w item)"
proof (cases "ix_is_stationary (ix_push_depth (w_depths w) (snd item)) (snd item)")
  case True
  then show ?thesis
    using assms by (cases "w_current w") (auto simp: walk_step_def Let_def walk_inv_def)
next
  case False
  show ?thesis
  proof (cases "w_current w")
    case None
    then show ?thesis
      using assms False by (auto simp: walk_step_def Let_def walk_inv_def)
  next
    case (Some cur)
    have "(\<forall>iv \<in> set (emit m cur (w_intervals w)). interval_ok m iv)
       \<and> sorted_wrt (\<lambda>a b. end_t a \<le> start_t b) (emit m cur (w_intervals w))
       \<and> (\<forall>iv \<in> set (emit m cur (w_intervals w)). end_t iv \<le> snd cur)"
      using assms(1) Some by (intro emit_inv) (simp_all add: walk_inv_def)
    moreover have "snd cur \<le> fst item"
      using assms Some by (simp add: walk_inv_def)
    ultimately show ?thesis
      using False Some by (fastforce simp: walk_step_def Let_def walk_inv_def)
  qed
qed

lemma foldl_walk_step_inv:
  assumes "sorted (map fst records)" and "\<forall>x \<in> set records. hi \<le> fst x" and "walk_inv m hi w"
  shows "\<exists>hi'. walk_inv m hi' (foldl (walk_step m) w records)"
  using assms
proof (induction records arbitrary: hi w)
  case Nil
  then show ?case by auto
next
  case (Cons x xs)
  have "walk_inv m (fst x) (walk_step m w x)"
    using Cons.prems by (intro walk_step_inv [of m hi]) simp_all
  moreover have "sorted (map fst xs)" and "\<forall>y \<in> set xs. fst x \<le> fst y"
    using Cons.prems(1) by simp_all
  ultimately show ?case
    using Cons.IH [of "fst x" "walk_step m w x"] by simp
qed

lemma raw_intervals_inv:
  assumes "sorted (map fst records)"
  shows "(\<forall>iv \<in> set (raw_intervals m records). interval_ok m iv)
       \<and> sorted_wrt (\<lambda>a b. end_t a \<le> start_t b) (raw_intervals m records)"
proof -
  obtain hi where hi: "\<forall>x \<in> set records. hi \<le> fst x"
  proof (cases records)
    case Nil
    then show ?thesis using that [of 0] by simp
  next
    case (Cons x xs)
    then show ?thesis using that [of "fst x"] assms by auto
  qed
  have "walk_inv m hi walk_init"
    by (simp add: walk_inv_def walk_init_def)
  then obtain hi' where inv: "walk_inv m hi' (stuck_walk m records)"
    using foldl_walk_step_inv [OF assms hi] unfolding stuck_walk_def by blast
  show ?thesis
  proof (cases "w_current (stuck_walk m records)")
    case None
    then show ?thesis using inv by (simp add: raw_intervals_def Let_def walk_inv_def)
  next
    case (Some cur)
    then show ?thesis
      using inv emit_inv [of "w_intervals (stuck_walk m records)" m cur]
      by (simp add: raw_intervals_def Let_def walk_inv_def)
  qed
qed

lemma merge_gaps_inv:
  assumes "\<forall>iv \<in> set (done @ lst # rest). interval_ok m iv"
    and "sorted_wrt (\<lambda>a b. end_t a \<le> start_t b) (lst # rest)"
    and "sorted_wrt (\<lambda>a b. end_t a + STUCK_GAP_S < start_t b) (done @ [lst])"
  shows "(\<forall>iv \<in> set (merge_gaps done lst rest). interval_ok m iv)
       \<and> sorted_wrt (\<lambda>a b. end_t a + STUCK_GAP_S < start_t b) (merge_gaps done lst rest)"
  using assms
proof (induction rest arbitrary: "done" lst)
  case Nil
  then show ?case by simp
next
  case (Cons iv ivs)
  show ?case
  proof (cases "start_t iv - end_t lst \<le> STUCK_GAP_S")
    case True
    let ?l = "\<lparr> start_t = start_t lst, end_t = end_t iv, duration_s = end_t iv - start_t lst \<rparr>"
    have ok: "interval_ok m lst" "interval_ok m iv" "end_t lst \<le> start_t iv"
      using Cons.prems by simp_all
    have "interval_ok m ?l"
      using ok by (simp add: interval_ok_def)
    then have 1: "\<forall>x \<in> set (done @ ?l # ivs). interval_ok m x"
      using Cons.prems(1) by auto
    have 2: "sorted_wrt (\<lambda>a b. end_t a \<le> start_t b) (?l # ivs)"
      using Cons.prems(2) by simp
    have 3: "sorted_wrt (\<lambda>a b. end_t a + STUCK_GAP_S < start_t b) (done @ [?l])"
      using Cons.prems(3) by (simp add: sorted_wrt_append)
    show ?thesis
      using Cons.IH [OF 1 2 3] True by simp
  next
    case False
    have ok: "interval_ok m lst"
      using Cons.prems by simp
    have 1: "\<forall>x \<in> set ((done @ [lst]) @ iv # ivs). interval_ok m x"
      using Cons.prems(1) by auto
    have 2: "sorted_wrt (\<lambda>a b. end_t a \<le> start_t b) (iv # ivs)"
      using Cons.prems(2) by simp
    have 3: "sorted_wrt (\<lambda>a b. end_t a + STUCK_GAP_S < start_t b) ((done @ [lst]) @ [iv])"
      using Cons.prems(3) False ok
      by (auto simp: sorted_wrt_append interval_ok_def STUCK_GAP_S_def)
    show ?thesis
      using Cons.IH [OF 1 2 3] False by simp
  qed
qed

lemma find_stuck_intervals_inv:
  "(\<forall>iv \<in> set (find_stuck_intervals index m). interval_ok m iv)
   \<and> sorted_wrt (\<lambda>a b. end_t a + STUCK_GAP_S < start_t b) (find_stuck_intervals index m)"
proof (cases "raw_intervals m (sort_key fst (by_time index))")
  case Nil
  then show ?thesis by (simp add: find_stuck_intervals_def Let_def)
next
  case (Cons iv ivs)
  have "sorted (map fst (sort_key fst (by_time index)))"
    by (rule sorted_sort_key)
  then have r: "(\<forall>x \<in> set (iv # ivs). interval_ok m x)
       \<and> sorted_wrt (\<lambda>a b. end_t a \<le> start_t b) (iv # ivs)"
    using raw_intervals_inv [of "sort_key fst (by_time index)" m] Cons by simp
  have "(\<forall>x \<in> set (merge_gaps [] iv ivs). interval_ok m x)
       \<and> sorted_wrt (\<lambda>a b. end_t a + STUCK_GAP_S < start_t b) (merge_gaps [] iv ivs)"
    using r by (intro merge_gaps_inv) simp_all
  then show ?thesis
    using Cons by (simp add: find_stuck_intervals_def Let_def)
qed

text \<open>
  Claim C7. For every index, the stuck intervals that \<open>_compute_hazards\<close> produces are
  ordered ascending by \<open>start_t\<close>, pairwise non-overlapping (each interval ends before
  every later one starts), every interval has \<open>duration_s = end_t - start_t\<close> and
  \<open>duration_s \<ge> STUCK_MIN_S\<close>, and consecutive intervals are separated by a gap larger
  than \<open>STUCK_GAP_S\<close>.
\<close>

theorem stuck_intervals_wellformed:
  "sorted_wrt (\<lambda>a b. start_t a < start_t b) (stuck_intervals (compute_hazards index))
   \<and> sorted_wrt (\<lambda>a b. end_t a < start_t b) (stuck_intervals (compute_hazards index))
   \<and> (\<forall>iv \<in> set (stuck_intervals (compute_hazards index)).
         duration_s iv = end_t iv - start_t iv \<and> STUCK_MIN_S \<le> duration_s iv)
   \<and> successively (\<lambda>a b. \<not> start_t b - end_t a \<le> STUCK_GAP_S)
        (stuck_intervals (compute_hazards index))"
proof -
  let ?ivs = "find_stuck_intervals index 120"
  have ok: "\<forall>iv \<in> set ?ivs. interval_ok 120 iv"
    and sep: "sorted_wrt (\<lambda>a b. end_t a + STUCK_GAP_S < start_t b) ?ivs"
    using find_stuck_intervals_inv [of index 120] by simp_all
  have 1: "sorted_wrt (\<lambda>a b. start_t a < start_t b) ?ivs"
    using sep
  proof (rule sorted_wrt_mono_rel [rotated])
    fix a b assume "a \<in> set ?ivs" "end_t a + STUCK_GAP_S < start_t b"
    then show "start_t a < start_t b"
      using ok by (auto simp: interval_ok_def STUCK_GAP_S_def)
  qed
  have 2: "sorted_wrt (\<lambda>a b. end_t a < start_t b) ?ivs"
    using sep by (rule sorted_wrt_mono_rel [rotated]) (simp add: STUCK_GAP_S_def)
  have 3: "\<forall>iv \<in> set ?ivs. duration_s iv = end_t iv - start_t iv \<and> STUCK_MIN_S \<le> duration_s iv"
    using ok by (auto simp: interval_ok_def STUCK_MIN_S_def)
  have "sorted_wrt (\<lambda>a b. \<not> start_t b - end_t a \<le> STUCK_GAP_S) ?ivs"
    using sep by (rule sorted_wrt_mono_rel [rotated]) simp
  then have 4: "successively (\<lambda>a b. \<not> start_t b - end_t a \<le> STUCK_GAP_S) ?ivs"
    by (rule successively_if_sorted_wrt)
  have e: "stuck_intervals (compute_hazards index) = ?ivs"
    by (simp add: compute_hazards_def)
  show ?thesis
    unfolding e using 1 2 3 4 by blast
qed

lemma stuck_index_intervals:
  "stuck_intervals (compute_hazards stuck_index)
     = [\<lparr> start_t = 0, end_t = 300, duration_s = 300 \<rparr>,
        \<lparr> start_t = 520, end_t = 700, duration_s = 180 \<rparr>]"
  by (simp add: compute_hazards_def find_stuck_intervals_def stuck_index_def empty_index_def
      raw_intervals_def stuck_walk_def walk_init_def walk_step_def Let_def emit_def
      ix_is_stationary_def ix_push_depth_def event_record_def is_directional_event_def
      STUCK_GAP_S_def)

theorem stuck_intervals_wellformed_witness:
  "stuck_intervals (compute_hazards stuck_index)
     = [\<lparr> start_t = 0, end_t = 300, duration_s = 300 \<rparr>,
        \<lparr> start_t = 520, end_t = 700, duration_s = 180 \<rparr>]
   \<and> sorted_wrt (\<lambda>a b. end_t a < start_t b) (stuck_intervals (compute_hazards stuck_index))
   \<and> list_all (\<lambda>iv. duration_s iv = end_t iv - start_t iv \<and> STUCK_MIN_S \<le> duration_s iv)
         (stuck_intervals (compute_hazards stuck_index))
   \<and> successively (\<lambda>a b. \<not> start_t b - end_t a \<le> STUCK_GAP_S)
        (stuck_intervals (compute_hazards stuck_index))"
  unfolding list_all_iff
  using stuck_intervals_wellformed [of stuck_index] stuck_index_intervals by blast

section \<open>Properties of the watchdog\<close>

subsection \<open>Debounce\<close>

lemma check_stuck_cases:
  "(check_stuck ag cid now ns = (ag, []))
   \<or> (\<exists>a. check_stuck ag cid now ns = (ag\<lparr> stuck_alerts := (stuck_alerts ag)(cid \<mapsto> now) \<rparr>, [a])
          \<and> em_now a = now \<and> alert_type (em_alert a) = Stuck_alert
          \<and> alert_client_id (em_alert a) = cid
          \<and> now - map_get (stuck_alerts ag) cid 0 \<ge> stuck_debounce)"
  by (simp add: check_stuck_def Let_def split: option.splits)

lemma send_accident_alert_cases:
  "(send_accident_alert ag cid t why now = (ag, []))
   \<or> (\<exists>a. send_accident_alert ag cid t why now
            = (ag\<lparr> accident_alerts := (accident_alerts ag)(cid \<mapsto> now) \<rparr>, [a])
          \<and> em_now a = now \<and> alert_type (em_alert a) = Accident_alert
          \<and> alert_client_id (em_alert a) = cid
          \<and> now - map_get (accident_alerts ag) cid 0 \<ge> accident_debounce)"
  by (simp add: send_accident_alert_def Let_def)

lemma check_accident_cases:
  "(check_accident ag cid r now = (ag, []))
   \<or> (\<exists>a. check_accident ag cid r now
            = (ag\<lparr> accident_alerts := (accident_alerts ag)(cid \<mapsto> now) \<rparr>, [a])
          \<and> em_now a = now \<and> alert_type (em_alert a) = Accident_alert
          \<and> alert_client_id (em_alert a) = cid
          \<and> now - map_get (accident_alerts ag) cid 0 \<ge> accident_debounce)"
  unfolding check_accident_def Let_def
  using send_accident_alert_cases by (auto split: option.splits prod.splits)

lemma process_record_step:
  "(alerts_of k cid (snd (process_record ag r clk)) = []
      \<and> last_time k (fst (process_record ag r clk)) cid = last_time k ag cid)
   \<or> (\<exists>a. alerts_of k cid (snd (process_record ag r clk)) = [a]
          \<and> em_now a - last_time k ag cid \<ge> debounce k
          \<and> last_time k (fst (process_record ag r clk)) cid = em_now a)"
proof -
  let ?c = "client_id r"
  let ?ag1 = "ag\<lparr> client_windows := (client_windows ag)(?c := deque_append (client_windows ag ?c) r) \<rparr>"
  let ?r1 = "check_stuck ?ag1 ?c (now_stuck clk) (now_stuck_send clk)"
  let ?r2 = "check_accident (fst ?r1) ?c r (now_accident clk)"
  have p: "process_record ag r clk = (fst ?r2, snd ?r1 @ snd ?r2)"
    by (simp add: process_record_def Let_def)
  have s: "(?r1 = (?ag1, []))
     \<or> (\<exists>a. ?r1 = (?ag1\<lparr> stuck_alerts := (stuck_alerts ?ag1)(?c \<mapsto> now_stuck clk) \<rparr>, [a])
          \<and> em_now a = now_stuck clk \<and> alert_type (em_alert a) = Stuck_alert
          \<and> alert_client_id (em_alert a) = ?c
          \<and> now_stuck clk - map_get (stuck_alerts ?ag1) ?c 0 \<ge> stuck_debounce)"
    by (rule check_stuck_cases)
  have a: "(?r2 = (fst ?r1, []))
     \<or> (\<exists>a. ?r2 = ((fst ?r1)\<lparr> accident_alerts := (accident_alerts (fst ?r1))(?c \<mapsto> now_accident clk) \<rparr>, [a])
          \<and> em_now a = now_accident clk \<and> alert_type (em_alert a) = Accident_alert
          \<and> alert_client_id (em_alert a) = ?c
          \<and> now_accident clk - map_get (accident_alerts (fst ?r1)) ?c 0 \<ge> accident_debounce)"
    by (rule check_accident_cases)
  show ?thesis
  proof (cases k)
    case Stuck_alert
    from s a show ?thesis
      unfolding p Stuck_alert
      by (elim disjE exE conjE)
         (auto simp: alerts_of_def last_time_def debounce_def map_get_def)
  next
    case Accident_alert
    from s a show ?thesis
      unfolding p Accident_alert
      by (elim disjE exE conjE)
         (auto simp: alerts_of_def last_time_def debounce_def map_get_def)
  qed
qed

lemma clear_other_last_time:
  "c \<noteq> cid \<Longrightarrow> last_time k (clear_client_state ag c) cid = last_time k ag cid"
  by (cases k) (simp_all add: last_time_def clear_client_state_def map_get_def)

lemma debounce_nonneg: "0 \<le> debounce k"
  by (cases k) (simp_all add: debounce_def stuck_debounce_def accident_debounce_def)

lemma run_debounced:
  assumes "Clear cid \<notin> set calls"
  shows "sorted_wrt (\<lambda>a b. em_now b - em_now a \<ge> debounce k) (alerts_of k cid (snd (run calls ag)))
       \<and> (\<forall>a \<in> set (alerts_of k cid (snd (run calls ag))).
             em_now a - last_time k ag cid \<ge> debounce k)"
  using assms
proof (induction calls arbitrary: ag)
  case Nil
  show ?case by (simp add: alerts_of_def)
next
  case (Cons call calls)
  show ?case
  proof (cases call)
    case (Clear c)
    then have "c \<noteq> cid" using Cons.prems by auto
    then show ?thesis
      using Cons.IH [of "clear_client_state ag c"] Cons.prems Clear
      by (simp add: clear_other_last_time)
  next
    case (Process r clk)
    let ?p = "process_record ag r clk"
    have split: "alerts_of k cid (snd (run (call # calls) ag))
        = alerts_of k cid (snd ?p) @ alerts_of k cid (snd (run calls (fst ?p)))"
      using Process by (simp add: Let_def alerts_of_def)
    have ih: "sorted_wrt (\<lambda>a b. em_now b - em_now a \<ge> debounce k)
                (alerts_of k cid (snd (run calls (fst ?p))))"
      and ih2: "\<forall>a \<in> set (alerts_of k cid (snd (run calls (fst ?p)))).
             em_now a - last_time k (fst ?p) cid \<ge> debounce k"
      using Cons.IH [of "fst ?p"] Cons.prems by simp_all
    from process_record_step [of k cid ag r clk] show ?thesis
    proof (elim disjE exE conjE)
      assume "alerts_of k cid (snd ?p) = []"
        and "last_time k (fst ?p) cid = last_time k ag cid"
      then show ?thesis
        using ih ih2 split by simp
    next
      fix a
      assume "alerts_of k cid (snd ?p) = [a]"
        and "em_now a - last_time k ag cid \<ge> debounce k"
        and "last_time k (fst ?p) cid = em_now a"
      then show ?thesis
        using ih ih2 split debounce_nonneg [of k] by fastforce
    qed
  qed
qed

text \<open>
  Claim C9, amended. In every execution of the watchdog, started in any state of the
  agent, in which \<open>clear_client_state\<close> is not called for the client, any two stuck
  alerts emitted for that client are at least \<open>stuck_debounce\<close> (900 s) of wall-clock
  time apart, and any two accident alerts at least \<open>accident_debounce\<close> (7200 s).
\<close>

theorem debounce_without_clear:
  assumes "Clear cid \<notin> set calls"
  shows "sorted_wrt (\<lambda>a b. em_now b - em_now a \<ge> stuck_debounce)
           (alerts_of Stuck_alert cid (snd (run calls ag)))
       \<and> sorted_wrt (\<lambda>a b. em_now b - em_now a \<ge> accident_debounce)
           (alerts_of Accident_alert cid (snd (run calls ag)))"
  using run_debounced [OF assms, of Stuck_alert ag] run_debounced [OF assms, of Accident_alert ag]
  by (simp add: debounce_def)

text \<open>
  Claim C9 as stated fails: \<open>clear_client_state\<close> removes the client's last alert times,
  so the alert after it is not debounced. Two stuck alerts are emitted one second apart
  (wall-clock 1000 and 1001), and two accident alerts one second apart (8000 and 8001).
\<close>

theorem debounce_clear_counterexample:
  "map em_now (alerts_of Stuck_alert ''alice'' (snd (run stuck_then_clear watchdog_init)))
     = [1000, 1001]
   \<and> map em_now (alerts_of Accident_alert ''alice'' (snd (run fall_then_clear watchdog_init)))
     = [8000, 8001]"
  by code_simp

lemma stuck_debounced_alerts:
  "map em_now (alerts_of Stuck_alert ''alice'' (snd (run stuck_debounced watchdog_init)))
     = [1000, 2000]"
  by code_simp

theorem debounce_without_clear_witness:
  "Clear ''alice'' \<notin> set stuck_debounced
   \<and> map em_now (alerts_of Stuck_alert ''alice'' (snd (run stuck_debounced watchdog_init)))
       = [1000, 2000]
   \<and> sorted_wrt (\<lambda>a b. em_now b - em_now a \<ge> stuck_debounce)
         (alerts_of Stuck_alert ''alice'' (snd (run stuck_debounced watchdog_init)))"
proof -
  have h: "Clear ''alice'' \<notin> set stuck_debounced"
    by (simp add: stuck_debounced_def)
  show ?thesis
    using h debounce_without_clear [OF h, of watchdog_init] stuck_debounced_alerts by blast
qed

subsection \<open>Pattern 2 of the accident check\<close>

lemma anchor_indices_small: "n \<le> 10 \<Longrightarrow> anchor_indices n = rev [1 ..< n]"
  by (simp add: anchor_indices_def)

lemma anchor_indices_no_zero: "0 \<notin> set (anchor_indices n)"
  by (simp add: anchor_indices_def)

lemma anchor_indices_length: "length (anchor_indices n) \<le> 9"
  by (simp add: anchor_indices_def)

text \<open>
  Claim C4 against the code. The anchor candidates of pattern 2 are the indices of
  \<open>range(len(window) - 1, max(0, len(window) - 10), -1)\<close>, whose stop value is
  exclusive: index 0 is never a candidate and at most 9 records are scanned. For the
  three records of scenario S3 (obstacle at depth 0.3, stop after 3 s, stop after 35 s)
  the only possible anchor is the oldest record of the window, and no alert is emitted;
  the sibling \<open>_compute_accident\<close> of the query planner, which tries every record as
  an anchor, detects the accident on the same three records. When one earlier record
  precedes them, the same obstacle sits at index 1 and the watchdog emits the alert.
\<close>

theorem oldest_record_not_anchor:
  "snd (run s3_calls watchdog_init) = []
   \<and> fst (compute_accident (foldl add_to_index (empty_index ''alice'') s3_records)
            default_params)
       = Accident_result True (Some 10000) (Some (Obstacle_stop 0.3 35))
   \<and> map (alert_t \<circ> em_alert)
        (snd (run (Process (event_record 9990 [''proceed'']) (clock_at 9990) # s3_calls) watchdog_init))
       = [10000]
   \<and> anchor_indices 3 = [2, 1]
   \<and> (\<forall>n. 0 \<notin> set (anchor_indices n) \<and> length (anchor_indices n) \<le> 9)"
proof -
  have 1: "snd (run s3_calls watchdog_init) = []"
    by code_simp
  have 2: "map (alert_t \<circ> em_alert)
        (snd (run (Process (event_record 9990 [''proceed'']) (clock_at 9990) # s3_calls) watchdog_init))
       = [10000]"
    by code_simp
  have 3: "anchor_indices 3 = [2, 1]"
    by code_simp
  have 4: "fst (compute_accident (foldl add_to_index (empty_index ''alice'') s3_records)
            default_params)
       = Accident_result True (Some 10000) (Some (Obstacle_stop 0.3 35))"
    by code_simp
  show ?thesis
    using 1 2 3 4 anchor_indices_no_zero anchor_indices_length by blast
qed

subsection \<open>The stationary rule of the watchdog and of the indexer\<close>

text \<open>
  Claim C3 as stated fails. For three records with \<open>free_ahead_m = 1.0\<close> and no events
  the watchdog, which fills its depth window from the newest record backwards, has one
  depth value when it judges the newest record and judges it not stationary; the
  indexer, which fills the window from the oldest record forwards, has three equal
  values at that record and judges it stationary.
\<close>

theorem stationary_judgement_counterexample:
  "snd (wd_scan (rev depth_window) [] None []) = [False]
   \<and> w_judged (stuck_walk 120 (walk_records depth_window)) = [False, False, True]"
  by code_simp

lemma same_step:
  "wd_push_depth depths r = ix_push_depth depths r"
  "wd_is_stationary depths r = ix_is_stationary depths r"
  by (simp_all add: wd_push_depth_def ix_push_depth_def wd_is_stationary_def ix_is_stationary_def)

lemma by_time_add_events: "by_time (add_events t es idx) = by_time idx"
  by (induction es arbitrary: idx) simp_all

lemma by_time_add_to_index:
  "by_time (add_to_index idx r) = dict_set (rec_t r) r (by_time idx)"
  by (simp add: add_to_index_def Let_def by_time_add_events add_classes_fields split: option.splits)

lemma dict_set_fresh: "k \<notin> fst ` set d \<Longrightarrow> dict_set k v d = d @ [(k, v)]"
  by (induction d) auto

lemma by_time_foldl_add:
  assumes "distinct (map rec_t window)"
    and "\<forall>r \<in> set window. rec_t r \<notin> fst ` set (by_time idx)"
  shows "by_time (foldl add_to_index idx window) = by_time idx @ map (\<lambda>r. (rec_t r, r)) window"
  using assms
proof (induction window arbitrary: idx)
  case Nil
  show ?case by simp
next
  case (Cons r rs)
  have b: "by_time (add_to_index idx r) = by_time idx @ [(rec_t r, r)]"
    using Cons.prems(2) by (simp add: by_time_add_to_index dict_set_fresh)
  have "\<forall>x \<in> set rs. rec_t x \<notin> fst ` set (by_time (add_to_index idx r))"
    using Cons.prems b by (auto simp: image_iff)
  then have "by_time (foldl add_to_index (add_to_index idx r) rs)
      = by_time (add_to_index idx r) @ map (\<lambda>r. (rec_t r, r)) rs"
    using Cons.prems(1) by (intro Cons.IH) simp_all
  then show ?case using b by simp
qed

lemma walk_records_ascending:
  assumes "sorted_wrt (<) (map rec_t window)"
  shows "walk_records window = map (\<lambda>r. (rec_t r, r)) window"
proof -
  have d: "distinct (map rec_t window)"
    using assms by (simp add: strict_sorted_iff)
  have "by_time (foldl add_to_index (empty_index []) window) = map (\<lambda>r. (rec_t r, r)) window"
    using by_time_foldl_add [OF d, of "empty_index []"] by (simp add: empty_index_def)
  moreover have "sorted (map fst (map (\<lambda>r. (rec_t r, r)) window))"
    using assms by (simp add: comp_def strict_sorted_iff)
  ultimately show ?thesis
    by (simp add: walk_records_def sort_key_id_if_sorted)
qed

lemma ix_judged_by_events:
  assumes "\<forall>x \<in> set recs. ''stop'' \<in> set (events (snd x))
              \<or> (\<exists>e \<in> set (events (snd x)). is_directional_event e)"
  shows "w_judged (foldl (walk_step m) w recs)
       = w_judged w @ map (\<lambda>x. \<not> (\<exists>e \<in> set (events (snd x)). is_directional_event e)) recs"
  using assms
proof (induction recs arbitrary: w)
  case Nil
  show ?case by simp
next
  case (Cons x xs)
  have st: "ix_is_stationary d (snd x) = (\<not> (\<exists>e \<in> set (events (snd x)). is_directional_event e))" for d
    using Cons.prems by (auto simp: ix_is_stationary_def Let_def)
  have "w_judged (walk_step m w x)
      = w_judged w @ [\<not> (\<exists>e \<in> set (events (snd x)). is_directional_event e)]"
    by (simp add: walk_step_def Let_def st split: option.splits)
  then show ?case
    using Cons.IH [of "walk_step m w x"] Cons.prems by simp
qed

lemma wd_judged_by_events:
  assumes "\<forall>r \<in> set rs. ''stop'' \<in> set (events r) \<or> (\<exists>e \<in> set (events r). is_directional_event e)"
  shows "\<exists>k. snd (wd_scan rs depths start judged)
       = judged @ take k (map (\<lambda>r. \<not> (\<exists>e \<in> set (events r). is_directional_event e)) rs)"
  using assms
proof (induction rs arbitrary: depths start judged)
  case Nil
  show ?case by simp
next
  case (Cons r rs)
  let ?ev = "\<lambda>r. \<not> (\<exists>e \<in> set (events r). is_directional_event e)"
  have st: "wd_is_stationary d r = ?ev r" for d
    using Cons.prems by (auto simp: wd_is_stationary_def Let_def)
  show ?case
  proof (cases "?ev r")
    case True
    obtain k where "snd (wd_scan rs (wd_push_depth depths r) (Some (rec_t r)) (judged @ [True]))
         = (judged @ [True]) @ take k (map ?ev rs)"
      using Cons.IH [of "wd_push_depth depths r" "Some (rec_t r)" "judged @ [True]"] Cons.prems
      by auto
    then have "snd (wd_scan (r # rs) depths start judged)
         = judged @ take (Suc k) (map ?ev (r # rs))"
      using True by (simp add: Let_def st)
    then show ?thesis by blast
  next
    case False
    then have "snd (wd_scan (r # rs) depths start judged)
         = judged @ take (Suc 0) (map ?ev (r # rs))"
      by (simp add: Let_def st)
    then show ?thesis by blast
  qed
qed

text \<open>
  Claim C3, amended. The watchdog judges each record it visits with the same stationary
  predicate and the same update of the rolling depth window as the indexer: both are the
  same functions of the depth window and the record. The windows they are applied to
  differ: the watchdog fills its window from the newest record backwards and stops at
  the first record that is not stationary, the indexer fills it from the oldest record
  forwards. For a window of records in ascending \<open>t\<close> in which every record carries a
  stop event or a directional event, so that no judgement depends on the depth window,
  every record that the watchdog visits is judged stationary by the watchdog iff the
  indexer's walk over the same records judges it stationary.
\<close>

theorem same_rule_agreement:
  "wd_push_depth depths r = ix_push_depth depths r
   \<and> wd_is_stationary depths r = ix_is_stationary depths r
   \<and> (sorted_wrt (<) (map rec_t window)
        \<and> (\<forall>x \<in> set window. ''stop'' \<in> set (events x)
                \<or> (\<exists>e \<in> set (events x). is_directional_event e))
      \<longrightarrow> (\<forall>i < length (snd (wd_scan (rev window) [] None [])).
              snd (wd_scan (rev window) [] None []) ! i
                = rev (w_judged (stuck_walk m (walk_records window))) ! i))"
proof (intro conjI impI)
  show "wd_push_depth depths r = ix_push_depth depths r"
    by (rule same_step)
  show "wd_is_stationary depths r = ix_is_stationary depths r"
    by (rule same_step)
next
  let ?ev = "\<lambda>r. \<not> (\<exists>e \<in> set (events r). is_directional_event e)"
  assume a: "sorted_wrt (<) (map rec_t window)
        \<and> (\<forall>x \<in> set window. ''stop'' \<in> set (events x)
                \<or> (\<exists>e \<in> set (events x). is_directional_event e))"
  have ix: "w_judged (stuck_walk m (walk_records window)) = map ?ev window"
    using a ix_judged_by_events [of "map (\<lambda>r. (rec_t r, r)) window" m walk_init]
    by (simp add: walk_records_ascending stuck_walk_def walk_init_def comp_def)
  obtain k where wd: "snd (wd_scan (rev window) [] None []) = take k (map ?ev (rev window))"
    using a wd_judged_by_events [of "rev window" "[]" None "[]"] by auto
  show "\<forall>i < length (snd (wd_scan (rev window) [] None [])).
              snd (wd_scan (rev window) [] None []) ! i
                = rev (w_judged (stuck_walk m (walk_records window))) ! i"
    by (simp add: ix wd rev_map)
qed

theorem same_rule_agreement_witness:
  "sorted_wrt (<) (map rec_t stop_window)
   \<and> list_all (\<lambda>x. ''stop'' \<in> set (events x)
                    \<or> (\<exists>e \<in> set (events x). is_directional_event e)) stop_window
   \<and> snd (wd_scan (rev stop_window) [] None []) = [True, True, False]
   \<and> rev (w_judged (stuck_walk 120 (walk_records stop_window))) = [True, True, False, True]
   \<and> list_all (\<lambda>i. snd (wd_scan (rev stop_window) [] None []) ! i
                     = rev (w_judged (stuck_walk 120 (walk_records stop_window))) ! i)
         [0 ..< length (snd (wd_scan (rev stop_window) [] None []))]"
proof -
  have h1: "sorted_wrt (<) (map rec_t stop_window)"
    by code_simp
  have h2: "\<forall>x \<in> set stop_window. ''stop'' \<in> set (events x)
           \<or> (\<exists>e \<in> set (events x). is_directional_event e)"
    by code_simp
  have e1: "snd (wd_scan (rev stop_window) [] None []) = [True, True, False]"
    by code_simp
  have e2: "rev (w_judged (stuck_walk 120 (walk_records stop_window))) = [True, True, False, True]"
    by code_simp
  have "\<forall>i < length (snd (wd_scan (rev stop_window) [] None [])).
          snd (wd_scan (rev stop_window) [] None []) ! i
            = rev (w_judged (stuck_walk 120 (walk_records stop_window))) ! i"
    using h1 h2 same_rule_agreement [of _ _ stop_window 120] by blast
  then have c: "list_all (\<lambda>i. snd (wd_scan (rev stop_window) [] None []) ! i
                     = rev (w_judged (stuck_walk 120 (walk_records stop_window))) ! i)
         [0 ..< length (snd (wd_scan (rev stop_window) [] None []))]"
    by (simp add: list_all_iff)
  show ?thesis
    using h1 h2 e1 e2 c by (simp only: list_all_iff)
qed

section \<open>Properties of the query planner\<close>

lemma trace_load_index:
  "\<exists>rest. trace (snd (load_index w cid session s e)) = trace w @ rest"
  by (auto simp: load_index_def read_index_def process_logs_def persist_index_def
      get_logs_from_db_def Let_def split: option.splits)

text \<open>
  Claim C1. The authorization check is the first access that \<open>handle_query\<close> makes. When
  \<open>is_authorized(requester_id, client_id)\<close> is false the query fails with
  \<open>PermissionError\<close> (Unauthorized), the store is unchanged, and the read of the contacts
  for the check is the only access: no record read, index read or index write happens.
\<close>

theorem unauthorized_no_data_access:
  "(\<exists>rest. trace (snd (handle_query w now fromiso requester_id cid question session ts te tz params))
            = trace w @ Contact_read # rest)
   \<and> (\<not> db_is_authorized (db w) requester_id cid \<longrightarrow>
        handle_query w now fromiso requester_id cid question session ts te tz params
          = (Inl (PermissionError requester_id), w\<lparr> trace := trace w @ [Contact_read] \<rparr>))"
proof (intro conjI impI)
  let ?w1 = "w\<lparr> trace := trace w @ [Contact_read] \<rparr>"
  show "\<exists>rest. trace (snd (handle_query w now fromiso requester_id cid question session ts te tz params))
            = trace w @ Contact_read # rest"
  proof (cases "db_is_authorized (db w) requester_id cid")
    case False
    then show ?thesis by (simp add: handle_query_def is_authorized_def Let_def)
  next
    case True
    show ?thesis
    proof (cases "parse_time_window now fromiso ts te tz")
      case (Inl e)
      then show ?thesis using True by (simp add: handle_query_def is_authorized_def Let_def)
    next
      case (Inr tw)
      obtain rest where "trace (snd (load_index ?w1 cid session (tw_start tw) (tw_end tw)))
          = trace ?w1 @ rest"
        using trace_load_index by blast
      then show ?thesis
        using True Inr
        by (simp add: handle_query_def is_authorized_def Let_def split: sum.splits)
    qed
  qed
next
  assume "\<not> db_is_authorized (db w) requester_id cid"
  then show "handle_query w now fromiso requester_id cid question session ts te tz params
          = (Inl (PermissionError requester_id), w\<lparr> trace := trace w @ [Contact_read] \<rparr>)"
    by (simp add: handle_query_def is_authorized_def Let_def)
qed

theorem unauthorized_no_data_access_witness:
  "\<not> db_is_authorized (db alice_world) ''bob'' ''alice''
   \<and> handle_query alice_world 1000 (\<lambda>s. None) ''bob'' ''alice'' ''did he fall today?'' None
        (Some ''today'') None ''UTC'' None
      = (Inl (PermissionError ''bob''), alice_world\<lparr> trace := [Contact_read] \<rparr>)"
proof -
  have h: "\<not> db_is_authorized (db alice_world) ''bob'' ''alice''"
    by (simp add: db_is_authorized_def alice_world_def)
  have t: "trace alice_world = []"
    by (simp add: alice_world_def)
  show ?thesis
    using h t unauthorized_no_data_access [of alice_world 1000 "\<lambda>s. None" "''bob''" "''alice''"
        "''did he fall today?''" None "Some ''today''" None "''UTC''" None]
    by simp
qed

lemma split_colon_no_colon: "CHR '':'' \<notin> set s \<Longrightarrow> split_colon acc s = [acc @ s]"
  by (induction s arbitrary: acc) auto

lemma split_colon_prefix:
  "CHR '':'' \<notin> set p \<Longrightarrow> split_colon acc (p @ CHR '':'' # rest) = (acc @ p) # split_colon [] rest"
  by (induction p arbitrary: acc) auto

lemma split_colon_nonempty: "split_colon acc s \<noteq> []"
  by (induction s arbitrary: acc) auto

lemma split_index_key: "\<exists>part parts. split_colon [] (index_key cid session) = ''index'' # part # parts"
proof -
  have "\<exists>rest. index_key cid session = ''index'' @ CHR '':'' # rest"
    by (auto simp: index_key_def split: option.splits)
  then obtain rest where "index_key cid session = ''index'' @ CHR '':'' # rest" by blast
  then have "split_colon [] (index_key cid session) = ''index'' # split_colon [] rest"
    using split_colon_prefix [of "''index''" "[]" rest] by simp
  moreover have "split_colon [] rest \<noteq> []"
    by (rule split_colon_nonempty)
  ultimately show ?thesis
    by (cases "split_colon [] rest") auto
qed

lemma read_index_world:
  "snd (read_index w (index_key cid session)) = w\<lparr> trace := trace w @ [Index_read] \<rparr>"
  using split_index_key [of cid session] by (auto simp: read_index_def Let_def)

lemma read_index_trace_irrelevant:
  "fst (read_index (w\<lparr> trace := t \<rparr>) key) = fst (read_index w key)"
  by (simp add: read_index_def Let_def)

lemma filter_update_first:
  assumes "filter P xs \<noteq> []" and "\<And>x. P x \<Longrightarrow> P (f x)"
  shows "filter P (update_first P f xs) \<noteq> []"
  using assms by (induction xs) auto

lemma hd_filter_update_first:
  assumes "filter P xs \<noteq> []" and "\<And>x. P x \<Longrightarrow> P (f x)"
  shows "hd (filter P (update_first P f xs)) = f (hd (filter P xs))"
  using assms by (induction xs) auto

lemma db_get_after_save:
  "db_get_index (db_save_index d cid data session tstart tend) cid session
     = Some (json_roundtrip data)"
proof (cases "filter (index_matches cid session) (user_indices d) = []")
  case True
  then show ?thesis
    by (simp add: db_get_index_def db_save_index_def index_matches_def)
next
  case False
  let ?f = "\<lambda>row. row\<lparr> index_data := json_roundtrip data, ir_time_start := tstart,
                       ir_time_end := tend \<rparr>"
  have keep: "\<And>x. index_matches cid session x \<Longrightarrow> index_matches cid session (?f x)"
    by (simp add: index_matches_def)
  have ne: "filter (index_matches cid session)
              (update_first (index_matches cid session) ?f (user_indices d)) \<noteq> []"
    using False keep by (rule filter_update_first)
  have "hd (filter (index_matches cid session)
              (update_first (index_matches cid session) ?f (user_indices d)))
        = ?f (hd (filter (index_matches cid session) (user_indices d)))"
    using False keep by (rule hd_filter_update_first)
  then show ?thesis
    using False ne by (auto simp: db_get_index_def db_save_index_def split: list.splits)
qed

text \<open>
  What \<open>read_index\<close> finds under a key after \<open>persist_index\<close> wrote an index
  there: not the index itself but its JSON round trip, with string keys in \<open>by_time\<close>.
\<close>

lemma read_after_persist:
  "fst (read_index (snd (persist_index w (index_key cid session) data)) (index_key cid session))
     = Some (json_roundtrip data)"
  using split_index_key [of cid session]
  by (auto simp: read_index_def persist_index_def Let_def db_get_after_save)

lemma format_answer_window: "format_answer m r tw = format_answer m r tw'"
  by (cases "(m, r, tw)" rule: format_answer.cases) auto

text \<open>
  Claim C10. For an authorized query whose time window parses: when \<open>read_index\<close> finds
  a persisted index under the key \<open>index:<client_id>[:<session_id>]\<close>, the outcome of
  the query is the outcome of the metric on that index alone, be it a result or the
  exception that the metric raises (the accident metric raises \<open>TypeError\<close> on the
  string keys of a stored index). The result, the samples and the answer do not depend on
  the parsed window, which is only echoed in the response (\<open>tw0\<close> below is any window
  at all), and the only accesses are the authorization check and the index read: the
  indexer is not invoked. When no index is found, the indexer is invoked with the parsed
  window, reading the records and persisting the new index.
\<close>

theorem cached_index_ignores_window:
  assumes "db_is_authorized (db w) requester_id cid"
    and "parse_time_window now fromiso ts te tz = Inr tw"
  shows "(fst (read_index w (index_key cid session)) = Some cached \<longrightarrow>
            handle_query w now fromiso requester_id cid question session ts te tz params
              = (case compute_metric (classify_intent question) (Cached cached)
                        (case params of None \<Rightarrow> default_params | Some p \<Rightarrow> p) of
                   Inl e \<Rightarrow> Inl e
                 | Inr r \<Rightarrow>
                     Inr (format_answer (classify_intent question) (fst r) tw0,
                          \<lparr> qr_client_id = cid, qr_time_window = tw,
                            qr_metric = classify_intent question,
                            qr_params = (case params of None \<Rightarrow> default_params | Some p \<Rightarrow> p),
                            qr_result = fst r, qr_samples = take 3 (snd r) \<rparr>),
                 w\<lparr> trace := trace w @ [Contact_read, Index_read] \<rparr>))
       \<and> (fst (read_index w (index_key cid session)) = None \<longrightarrow>
            snd (handle_query w now fromiso requester_id cid question session ts te tz params)
              = snd (process_logs (w\<lparr> trace := trace w @ [Contact_read, Index_read] \<rparr>) cid
                       (Some (tw_start tw)) (Some (tw_end tw)) session))"
proof (intro conjI impI)
  let ?w1 = "w\<lparr> trace := trace w @ [Contact_read] \<rparr>"
  let ?p = "case params of None \<Rightarrow> default_params | Some p \<Rightarrow> p"
  have w2: "snd (read_index ?w1 (index_key cid session))
      = w\<lparr> trace := trace w @ [Contact_read, Index_read] \<rparr>"
    by (simp add: read_index_world)
  {
    assume c: "fst (read_index w (index_key cid session)) = Some cached"
    have "fst (read_index ?w1 (index_key cid session)) = Some cached"
      using c by (simp add: read_index_trace_irrelevant)
    then have l: "load_index ?w1 cid session (tw_start tw) (tw_end tw)
        = (Cached cached, w\<lparr> trace := trace w @ [Contact_read, Index_read] \<rparr>)"
      using w2 by (simp add: load_index_def Let_def)
    show "handle_query w now fromiso requester_id cid question session ts te tz params
              = (case compute_metric (classify_intent question) (Cached cached) ?p of
                   Inl e \<Rightarrow> Inl e
                 | Inr r \<Rightarrow>
                     Inr (format_answer (classify_intent question) (fst r) tw0,
                          \<lparr> qr_client_id = cid, qr_time_window = tw,
                            qr_metric = classify_intent question,
                            qr_params = ?p,
                            qr_result = fst r, qr_samples = take 3 (snd r) \<rparr>),
                 w\<lparr> trace := trace w @ [Contact_read, Index_read] \<rparr>)"
      using assms l format_answer_window [of _ _ tw tw0]
      by (simp add: handle_query_def is_authorized_def Let_def split: sum.splits)
  }
  {
    assume c: "fst (read_index w (index_key cid session)) = None"
    have "fst (read_index ?w1 (index_key cid session)) = None"
      using c by (simp add: read_index_trace_irrelevant)
    then have l: "snd (load_index ?w1 cid session (tw_start tw) (tw_end tw))
        = snd (process_logs (w\<lparr> trace := trace w @ [Contact_read, Index_read] \<rparr>) cid
                       (Some (tw_start tw)) (Some (tw_end tw)) session)"
      using w2 by (simp add: load_index_def Let_def)
    show "snd (handle_query w now fromiso requester_id cid question session ts te tz params)
              = snd (process_logs (w\<lparr> trace := trace w @ [Contact_read, Index_read] \<rparr>) cid
                       (Some (tw_start tw)) (Some (tw_end tw)) session)"
      using assms l by (simp add: handle_query_def is_authorized_def Let_def split: sum.splits)
  }
qed

theorem cached_index_ignores_window_witness:
  "db_is_authorized (db alice_world) ''carol'' ''alice''
   \<and> parse_time_window 1000000 (\<lambda>s. None) (Some ''last_week'') None ''UTC''
       = Inr \<lparr> tw_start = 395200, tw_end = 1000000, tw_tz = ''UTC'' \<rparr>
   \<and> fst (read_index alice_world (index_key ''alice'' None)) = Some (json_roundtrip alice_index)
   \<and> map fst (st_by_time (json_roundtrip alice_index)) = [''100'', ''200'']
   \<and> map_sum id (\<lambda>r. (fst r, qr_result (snd r)))
         (fst (handle_query alice_world 1000000 (\<lambda>s. None) ''carol'' ''alice''
                ''How many almost crashes last week?'' None (Some ''last_week'') None ''UTC'' None))
       = Inr (Near_miss_answer 2, Count 2)
   \<and> trace (snd (handle_query alice_world 1000000 (\<lambda>s. None) ''carol'' ''alice''
                ''How many almost crashes last week?'' None (Some ''last_week'') None ''UTC'' None))
       = [Contact_read, Index_read]
   \<and> handle_query alice_world 1000000 (\<lambda>s. None) ''carol'' ''alice''
                ''Did he have an accident?'' None (Some ''last_week'') None ''UTC'' None
       = (Inl TypeError, alice_world\<lparr> trace := [Contact_read, Index_read] \<rparr>)
   \<and> db_is_authorized (db alice_world) ''carol'' ''dave''
   \<and> fst (read_index alice_world (index_key ''dave'' None)) = None
   \<and> trace (snd (handle_query alice_world 1000000 (\<lambda>s. None) ''carol'' ''dave''
                ''How many almost crashes last week?'' None (Some ''last_week'') None ''UTC'' None))
       = [Contact_read, Index_read, Log_read, Index_write]"
proof -
  let ?tw = "\<lparr> tw_start = 395200, tw_end = 1000000, tw_tz = ''UTC'' \<rparr>"
  let ?q = "''How many almost crashes last week?''"
  let ?q' = "''Did he have an accident?''"
  have h1: "db_is_authorized (db alice_world) ''carol'' ''alice''"
    by (simp add: db_is_authorized_def alice_world_def)
  have h1': "db_is_authorized (db alice_world) ''carol'' ''dave''"
    by (simp add: db_is_authorized_def alice_world_def)
  have h2: "parse_time_window 1000000 (\<lambda>s. None) (Some ''last_week'') None ''UTC'' = Inr ?tw"
    by (simp add: parse_time_window_def)
  have h3: "fst (read_index alice_world (index_key ''alice'' None))
      = Some (json_roundtrip alice_index)"
    by (simp add: read_index_def index_key_def Let_def key_session_def db_get_index_def
        alice_world_def index_matches_def)
  have h3': "fst (read_index alice_world (index_key ''dave'' None)) = None"
    by (simp add: read_index_def index_key_def Let_def key_session_def db_get_index_def
        alice_world_def index_matches_def)
  have k: "map fst (st_by_time (json_roundtrip alice_index)) = [''100'', ''200'']"
    by code_simp
  have m: "classify_intent ?q = Almost_crash"
    by code_simp
  have m': "classify_intent ?q' = Accident"
    by code_simp
  have r: "map_sum id fst (compute_metric Almost_crash (Cached (json_roundtrip alice_index))
               default_params) = Inr (Count 2)"
    by code_simp
  have r': "compute_metric Accident (Cached (json_roundtrip alice_index)) default_params
      = Inl TypeError"
    by code_simp
  have t: "trace alice_world = []"
    by (simp add: alice_world_def)
  have t': "trace (snd (process_logs (alice_world\<lparr> trace := [Contact_read, Index_read] \<rparr>)
               ''dave'' (Some 395200) (Some 1000000) None))
        = [Contact_read, Index_read, Log_read, Index_write]"
    by (simp add: process_logs_def Let_def get_logs_from_db_def persist_index_def index_key_def)
  have a: "map_sum id (\<lambda>r. (fst r, qr_result (snd r)))
         (fst (handle_query alice_world 1000000 (\<lambda>s. None) ''carol'' ''alice'' ?q None
                 (Some ''last_week'') None ''UTC'' None))
       = Inr (Near_miss_answer 2, Count 2)
     \<and> snd (handle_query alice_world 1000000 (\<lambda>s. None) ''carol'' ''alice'' ?q None
                 (Some ''last_week'') None ''UTC'' None)
       = alice_world\<lparr> trace := [Contact_read, Index_read] \<rparr>"
    using cached_index_ignores_window [OF h1 h2, where session = None
        and cached = "json_roundtrip alice_index" and question = ?q and params = None
        and ?tw0.0 = ?tw] h3 m r t
    by (auto split: sum.splits)
  have a': "handle_query alice_world 1000000 (\<lambda>s. None) ''carol'' ''alice'' ?q' None
             (Some ''last_week'') None ''UTC'' None
        = (Inl TypeError, alice_world\<lparr> trace := [Contact_read, Index_read] \<rparr>)"
    using cached_index_ignores_window [OF h1 h2, where session = None
        and cached = "json_roundtrip alice_index" and question = ?q' and params = None
        and ?tw0.0 = ?tw] h3 m' r' t
    by simp
  have b: "snd (handle_query alice_world 1000000 (\<lambda>s. None) ''carol'' ''dave'' ?q None
             (Some ''last_week'') None ''UTC'' None)
        = snd (process_logs (alice_world\<lparr> trace := [Contact_read, Index_read] \<rparr>)
               ''dave'' (Some 395200) (Some 1000000) None)"
    using cached_index_ignores_window [OF h1' h2, where session = None
        and cached = "json_roundtrip alice_index" and question = ?q and params = None
        and ?tw0.0 = ?tw] h3' t
    by simp
  show ?thesis
    using h1 h1' h2 h3 h3' k a a' b t' by simp
qed

end
